theory Spec2Isabelle
  imports Main "HOL-Library.Word"
begin

section \<open>JavaScript values used by the five adapter servers\<close>

text \<open>
  The repository holds five MCP servers written in TypeScript: Pipedrive and FreshWorks
  (both in \<^verbatim>\<open>src/pipedriveServer/index.ts\<close>), GoHighLevel and Hubspot (both in
  \<^verbatim>\<open>src/gohighlevelServer/index.ts\<close>) and Keap (\<^verbatim>\<open>src/keapServer/index.ts\<close>).
  Every tool handler is one \<^verbatim>\<open>try { ... } catch { ... }\<close> around one call of an HTTP
  client.

  A JavaScript string is a sequence of 16-bit code units, so a string is a list of
  \<open>16 word\<close>; \<open>lit\<close> turns an ASCII literal into such a list. Numbers are modelled as
  integers (\<open>int\<close>), and the theory covers the safe integers, those of absolute value at
  most 9007199254740991 (\<^verbatim>\<open>Number.MAX_SAFE_INTEGER\<close>): JavaScript holds each of them
  exactly and prints it in plain decimal notation. Fractions, \<^verbatim>\<open>NaN\<close>, the infinities and
  the larger numbers, which JavaScript rounds and from 1e21 on prints with an exponent
  (\<^verbatim>\<open>1e+21\<close>), are outside of it.
  \<^verbatim>\<open>undefined\<close> is \<open>None\<close> of an option type wherever the source can meet it.
\<close>

type_synonym jsstring = "16 word list"

definition lit :: "string \<Rightarrow> jsstring" where
  "lit s = map of_char s"

datatype json =
    JNull
  | JBool bool
  | JNum int
  | JStr jsstring
  | JArr "json list"
  | JObj "(jsstring \<times> json) list"

text \<open>
  A thrown value: an \<^verbatim>\<open>Error\<close> instance with its \<^verbatim>\<open>message\<close> and, for the errors
  axios rejects with on a non-2xx status, its \<^verbatim>\<open>response\<close> (\<^verbatim>\<open>status\<close> and \<^verbatim>\<open>data\<close>);
  or a thrown string, which is not an \<^verbatim>\<open>Error\<close> instance and has no \<^verbatim>\<open>message\<close>.
\<close>

datatype thrown =
    JsError jsstring "(nat \<times> json) option"
  | ThrownString jsstring

definition TypeError :: "jsstring \<Rightarrow> thrown" where
  "TypeError m = JsError m None"

definition URIError :: "thrown" where
  "URIError = JsError (lit ''URI malformed'') None"

subsection \<open>Number.prototype.toString, Array.prototype.join\<close>

fun digits :: "nat \<Rightarrow> jsstring" where
  "digits n = (if n < 10 then [of_nat (48 + n)]
               else digits (n div 10) @ [of_nat (48 + n mod 10)])"

declare digits.simps [simp del]

definition number_toString :: "int \<Rightarrow> jsstring" where
  "number_toString i = (if i < 0 then 0x2D # digits (nat (- i)) else digits (nat i))"

text \<open>
  \<^verbatim>\<open>Number.isSafeInteger\<close>. For a safe integer \<open>number_toString\<close> is what
  \<^verbatim>\<open>Number.prototype.toString\<close> and a template literal print; for another number it is
  not (JavaScript prints 1e21 as \<^verbatim>\<open>1e+21\<close>).
\<close>

definition safe_integer :: "int \<Rightarrow> bool" where
  "safe_integer i = (- 9007199254740991 \<le> i \<and> i \<le> 9007199254740991)"

fun array_join :: "'a list \<Rightarrow> 'a list list \<Rightarrow> 'a list" where
  "array_join s [] = []"
| "array_join s [x] = x"
| "array_join s (x # y # ys) = x @ s @ array_join s (y # ys)"

text \<open>\<^verbatim>\<open>String.prototype.startsWith\<close> and \<^verbatim>\<open>String.prototype.includes\<close>.\<close>

fun startsWith :: "'a list \<Rightarrow> 'a list \<Rightarrow> bool" where
  "startsWith s [] = True"
| "startsWith [] (p # ps) = False"
| "startsWith (c # s) (p # ps) = (c = p \<and> startsWith s ps)"

fun String_includes :: "'a list \<Rightarrow> 'a list \<Rightarrow> bool" where
  "String_includes [] sub = (sub = [])"
| "String_includes (c # s) sub = (startsWith (c # s) sub \<or> String_includes s sub)"

subsection \<open>JSON.stringify\<close>

definition is_high_surrogate :: "16 word \<Rightarrow> bool" where
  "is_high_surrogate c = (0xD800 \<le> unat c \<and> unat c \<le> 0xDBFF)"

definition is_low_surrogate :: "16 word \<Rightarrow> bool" where
  "is_low_surrogate c = (0xDC00 \<le> unat c \<and> unat c \<le> 0xDFFF)"

definition hex_digit :: "nat \<Rightarrow> 16 word" where
  "hex_digit d = (if d < 10 then of_nat (48 + d) else of_nat (87 + d))"

definition unicode_escape :: "16 word \<Rightarrow> jsstring" where
  "unicode_escape c =
     (let n = unat c
      in [0x5C, 0x75, hex_digit (n div 4096), hex_digit (n div 256 mod 16),
          hex_digit (n div 16 mod 16), hex_digit (n mod 16)])"

text \<open>
  One code unit of QuoteJSONString that is not part of a surrogate pair: the short
  escapes, \<^verbatim>\<open>\uXXXX\<close> for the other control characters and for a lone surrogate,
  the unit itself otherwise.
\<close>

definition quote_unit :: "16 word \<Rightarrow> jsstring" where
  "quote_unit c =
     (let n = unat c
      in if n = 0x08 then [0x5C, 0x62]
         else if n = 0x09 then [0x5C, 0x74]
         else if n = 0x0A then [0x5C, 0x6E]
         else if n = 0x0C then [0x5C, 0x66]
         else if n = 0x0D then [0x5C, 0x72]
         else if n = 0x22 then [0x5C, 0x22]
         else if n = 0x5C then [0x5C, 0x5C]
         else if n < 0x20 \<or> is_high_surrogate c \<or> is_low_surrogate c then unicode_escape c
         else [c])"

fun quote_units :: "jsstring \<Rightarrow> jsstring" where
  "quote_units [] = []"
| "quote_units [c] = quote_unit c"
| "quote_units (c # d # s) =
     (if is_high_surrogate c \<and> is_low_surrogate d then c # d # quote_units s
      else quote_unit c @ quote_units (d # s))"

definition QuoteJSONString :: "jsstring \<Rightarrow> jsstring" where
  "QuoteJSONString s = 0x22 # quote_units s @ [0x22]"

text \<open>
  \<open>gap_sep g d\<close> is the line break and indentation at nesting depth \<open>d\<close> for an indent
  of \<open>g\<close> spaces; with \<open>g = 0\<close> (no \<^verbatim>\<open>space\<close> argument) JSON.stringify emits neither.
\<close>

definition gap_sep :: "nat \<Rightarrow> nat \<Rightarrow> jsstring" where
  "gap_sep g d = (if g = 0 then [] else 0x0A # replicate (g * d) 0x20)"

definition colon :: "nat \<Rightarrow> jsstring" where
  "colon g = (if g = 0 then [0x3A] else [0x3A, 0x20])"

fun serialize :: "nat \<Rightarrow> nat \<Rightarrow> json \<Rightarrow> jsstring" where
  "serialize g d JNull = lit ''null''"
| "serialize g d (JBool b) = (if b then lit ''true'' else lit ''false'')"
| "serialize g d (JNum i) = number_toString i"
| "serialize g d (JStr s) = QuoteJSONString s"
| "serialize g d (JArr vs) =
     (if vs = [] then lit ''[]''
      else lit ''['' @ gap_sep g (Suc d)
        @ array_join (0x2C # gap_sep g (Suc d)) (map (serialize g (Suc d)) vs)
        @ gap_sep g d @ lit '']'')"
| "serialize g d (JObj kvs) =
     (if kvs = [] then lit ''{}''
      else lit ''{'' @ gap_sep g (Suc d)
        @ array_join (0x2C # gap_sep g (Suc d))
            (map (\<lambda>(k, v). QuoteJSONString k @ colon g @ serialize g (Suc d) v) kvs)
        @ gap_sep g d @ lit ''}'')"

text \<open>\<^verbatim>\<open>JSON.stringify(v, null, 2)\<close> and \<^verbatim>\<open>JSON.stringify(v)\<close>.\<close>

definition JSON_stringify2 :: "json \<Rightarrow> jsstring" where
  "JSON_stringify2 v = serialize 2 0 v"

definition JSON_stringify :: "json \<Rightarrow> jsstring" where
  "JSON_stringify v = serialize 0 0 v"

subsection \<open>Property access, truthiness, string conversion\<close>

text \<open>
  \<^verbatim>\<open>v.key\<close> for a value that came out of JSON.parse and a key that is not inherited
  (\<^verbatim>\<open>message\<close>, \<^verbatim>\<open>id\<close>, \<^verbatim>\<open>data\<close>): TypeError on \<^verbatim>\<open>null\<close>, the own property of an
  object, \<^verbatim>\<open>undefined\<close> otherwise. The message is V8's.
\<close>

definition get_prop :: "json \<Rightarrow> jsstring \<Rightarrow> thrown + json option" where
  "get_prop v k =
     (case v of
        JNull \<Rightarrow> Inl (TypeError (lit ''Cannot read properties of null (reading '' @ [0x27] @ k @ [0x27] @ lit '')''))
      | JObj kvs \<Rightarrow> Inr (map_of kvs k)
      | _ \<Rightarrow> Inr None)"

definition get_prop_opt :: "json option \<Rightarrow> jsstring \<Rightarrow> thrown + json option" where
  "get_prop_opt v k =
     (case v of
        None \<Rightarrow> Inl (TypeError (lit ''Cannot read properties of undefined (reading '' @ [0x27] @ k @ [0x27] @ lit '')''))
      | Some w \<Rightarrow> get_prop w k)"

definition truthy :: "json option \<Rightarrow> bool" where
  "truthy v =
     (case v of
        None \<Rightarrow> False
      | Some JNull \<Rightarrow> False
      | Some (JBool b) \<Rightarrow> b
      | Some (JNum i) \<Rightarrow> i \<noteq> 0
      | Some (JStr s) \<Rightarrow> s \<noteq> []
      | Some _ \<Rightarrow> True)"

text \<open>
  ToString, as a template literal applies it. An array is joined with commas, \<^verbatim>\<open>null\<close>
  elements giving the empty string; a plain object gives \<^verbatim>\<open>[object Object]\<close>, unless it
  has an own property \<^verbatim>\<open>toString\<close>, which (coming from JSON) is not callable, and then
  the conversion throws a TypeError.
\<close>

fun sequence_join :: "jsstring \<Rightarrow> (thrown + jsstring) list \<Rightarrow> thrown + jsstring" where
  "sequence_join s [] = Inr []"
| "sequence_join s [r] = r"
| "sequence_join s (r # q # rs) =
     (case r of
        Inl e \<Rightarrow> Inl e
      | Inr x \<Rightarrow> (case sequence_join s (q # rs) of Inl e \<Rightarrow> Inl e | Inr y \<Rightarrow> Inr (x @ s @ y)))"

fun ToString :: "json \<Rightarrow> thrown + jsstring" where
  "ToString JNull = Inr (lit ''null'')"
| "ToString (JBool b) = Inr (if b then lit ''true'' else lit ''false'')"
| "ToString (JNum i) = Inr (number_toString i)"
| "ToString (JStr s) = Inr s"
| "ToString (JArr vs) =
     sequence_join [0x2C] (map (\<lambda>v. if v = JNull then Inr [] else ToString v) vs)"
| "ToString (JObj kvs) =
     (if lit ''toString'' \<in> fst ` set kvs
      then Inl (TypeError (lit ''Cannot convert object to primitive value''))
      else Inr (lit ''[object Object]''))"

definition ToString_opt :: "json option \<Rightarrow> thrown + jsstring" where
  "ToString_opt v = (case v of None \<Rightarrow> Inr (lit ''undefined'') | Some w \<Rightarrow> ToString w)"

subsection \<open>encodeURIComponent and URLSearchParams\<close>

definition is_alnum :: "nat \<Rightarrow> bool" where
  "is_alnum n = ((0x30 \<le> n \<and> n \<le> 0x39) \<or> (0x41 \<le> n \<and> n \<le> 0x5A) \<or> (0x61 \<le> n \<and> n \<le> 0x7A))"

definition uri_unescaped :: "nat \<Rightarrow> bool" where
  "uri_unescaped n = (is_alnum n \<or> n \<in> {0x2D, 0x5F, 0x2E, 0x21, 0x7E, 0x2A, 0x27, 0x28, 0x29})"

definition form_unescaped :: "nat \<Rightarrow> bool" where
  "form_unescaped n = (is_alnum n \<or> n \<in> {0x2A, 0x2D, 0x2E, 0x5F})"

definition upper_hex_digit :: "nat \<Rightarrow> 16 word" where
  "upper_hex_digit d = (if d < 10 then of_nat (48 + d) else of_nat (55 + d))"

definition utf8 :: "nat \<Rightarrow> nat list" where
  "utf8 n =
     (if n < 0x80 then [n]
      else if n < 0x800 then [0xC0 + n div 64, 0x80 + n mod 64]
      else if n < 0x10000 then [0xE0 + n div 4096, 0x80 + n div 64 mod 64, 0x80 + n mod 64]
      else [0xF0 + n div 262144, 0x80 + n div 4096 mod 64, 0x80 + n div 64 mod 64,
            0x80 + n mod 64])"

definition percent_octet :: "nat \<Rightarrow> jsstring" where
  "percent_octet b = [0x25, upper_hex_digit (b div 16), upper_hex_digit (b mod 16)]"

definition percent_encode :: "nat \<Rightarrow> jsstring" where
  "percent_encode cp = concat (map percent_octet (utf8 cp))"

definition pair_code_point :: "16 word \<Rightarrow> 16 word \<Rightarrow> nat" where
  "pair_code_point hi lo = 0x10000 + (unat hi - 0xD800) * 0x400 + (unat lo - 0xDC00)"

text \<open>
  encodeURIComponent: an unescaped unit is copied, any other code point is written as
  the percent-encoded octets of its UTF-8 form, and a lone surrogate raises URIError.
\<close>

fun encodeURIComponent :: "jsstring \<Rightarrow> thrown + jsstring" where
  "encodeURIComponent [] = Inr []"
| "encodeURIComponent (c # s) =
     (if uri_unescaped (unat c) then map_sum id ((#) c) (encodeURIComponent s)
      else if is_high_surrogate c then
        (case s of
           [] \<Rightarrow> Inl URIError
         | d # t \<Rightarrow>
             if is_low_surrogate d
             then map_sum id ((@) (percent_encode (pair_code_point c d))) (encodeURIComponent t)
             else Inl URIError)
      else if is_low_surrogate c then Inl URIError
      else map_sum id ((@) (percent_encode (unat c))) (encodeURIComponent s))"

text \<open>
  The serializer of URLSearchParams (application/x-www-form-urlencoded): a space is
  \<^verbatim>\<open>+\<close>, a lone surrogate is replaced by U+FFFD, and it never throws.
\<close>

fun form_encode :: "jsstring \<Rightarrow> jsstring" where
  "form_encode [] = []"
| "form_encode (c # s) =
     (if form_unescaped (unat c) then c # form_encode s
      else if unat c = 0x20 then 0x2B # form_encode s
      else if is_high_surrogate c then
        (case s of
           [] \<Rightarrow> percent_encode 0xFFFD
         | d # t \<Rightarrow>
             if is_low_surrogate d
             then percent_encode (pair_code_point c d) @ form_encode t
             else percent_encode 0xFFFD @ form_encode s)
      else if is_low_surrogate c then percent_encode 0xFFFD @ form_encode s
      else percent_encode (unat c) @ form_encode s)"

definition URLSearchParams_toString :: "(jsstring \<times> jsstring) list \<Rightarrow> jsstring" where
  "URLSearchParams_toString ps =
     array_join [0x26] (map (\<lambda>(k, v). form_encode k @ [0x3D] @ form_encode v) ps)"

section \<open>Envelopes, faults and the HTTP clients\<close>

text \<open>
  The reply of a tool: \<^verbatim>\<open>{ content: [{ type: "text", text }], isError }\<close>. A success
  reply of the source has no \<^verbatim>\<open>isError\<close> key, which is \<open>None\<close> here; the text of a
  content item is \<open>None\<close> when the source puts \<^verbatim>\<open>undefined\<close> there.
\<close>

datatype content_item = TextContent "jsstring option"

record envelope =
  content :: "content_item list"
  isError :: "bool option"

definition success_envelope :: "jsstring option \<Rightarrow> envelope" where
  "success_envelope t = \<lparr>content = [TextContent t], isError = None\<rparr>"

definition error_envelope :: "jsstring \<Rightarrow> envelope" where
  "error_envelope t = \<lparr>content = [TextContent (Some t)], isError = Some True\<rparr>"

definition well_formed :: "envelope \<Rightarrow> bool" where
  "well_formed e = (case content e of [TextContent (Some t)] \<Rightarrow> True | _ \<Rightarrow> False)"

text \<open>
  What running a block of a handler gives: the envelope it returns or the value it
  throws, and the calls of the HTTP client it made, in order.
\<close>

type_synonym 'c outcome = "(thrown + envelope) \<times> 'c list"

definition try_catch :: "'c outcome \<Rightarrow> (thrown \<Rightarrow> envelope) \<Rightarrow> 'c outcome" where
  "try_catch body handler =
     (case fst body of Inl e \<Rightarrow> (Inr (handler e), snd body) | Inr r \<Rightarrow> body)"

definition z_default :: "'a \<Rightarrow> 'a option \<Rightarrow> 'a" where
  "z_default d v = (case v of None \<Rightarrow> d | Some x \<Rightarrow> x)"

subsection \<open>node-fetch\<close>

record fetch_request =
  req_url :: jsstring
  req_method :: "jsstring option"
  req_headers :: "(jsstring \<times> jsstring) list"
  req_body :: "jsstring option"

text \<open>
  A response as the handlers use it: \<^verbatim>\<open>status\<close>, \<^verbatim>\<open>statusText\<close>, and what
  \<^verbatim>\<open>await response.text()\<close> and \<^verbatim>\<open>await response.json()\<close> settle to (\<open>Inl\<close> when the
  promise rejects, as \<^verbatim>\<open>json()\<close> does on a body that is not JSON).
\<close>

record response =
  status :: nat
  statusText :: jsstring
  response_text :: "thrown + jsstring"
  response_json :: "thrown + json"

definition ok :: "response \<Rightarrow> bool" where
  "ok r = (200 \<le> status r \<and> status r \<le> 299)"

type_synonym fetch = "fetch_request \<Rightarrow> thrown + response"

definition bearer_headers :: "jsstring \<Rightarrow> (jsstring \<times> jsstring) list" where
  "bearer_headers apiKey =
     [(lit ''Authorization'', lit ''Bearer '' @ apiKey),
      (lit ''Content-Type'', lit ''application/json'')]"

section \<open>GoHighLevel server\<close>

definition GHL_API_BASE :: jsstring where
  "GHL_API_BASE = lit ''https://rest.gohighlevel.com/v1''"

text \<open>
  \<^verbatim>\<open>ghlRequest\<close>: one fetch; the body is parsed before \<^verbatim>\<open>response.ok\<close> is looked at; a
  response that is not ok throws an Error whose message is \<^verbatim>\<open>data.message\<close>, or the
  status text when that is falsy.
\<close>

definition ghl_fetch_request ::
  "jsstring \<Rightarrow> jsstring \<Rightarrow> jsstring option \<Rightarrow> json option \<Rightarrow> fetch_request" where
  "ghl_fetch_request apiKey endpoint method body =
     \<lparr>req_url = GHL_API_BASE @ endpoint,
      req_method = Some (z_default (lit ''GET'') method),
      req_headers = bearer_headers apiKey,
      req_body = (case body of Some b \<Rightarrow> Some (JSON_stringify b) | None \<Rightarrow> None)\<rparr>"

definition ghlRequest ::
  "fetch \<Rightarrow> jsstring \<Rightarrow> jsstring \<Rightarrow> jsstring option \<Rightarrow> json option
     \<Rightarrow> (thrown + json) \<times> fetch_request list" where
  "ghlRequest fetch apiKey endpoint method body =
     ((case fetch (ghl_fetch_request apiKey endpoint method body) of
         Inl e \<Rightarrow> Inl e
       | Inr response \<Rightarrow>
           (case response_json response of
              Inl e \<Rightarrow> Inl e
            | Inr data \<Rightarrow>
                if \<not> ok response then
                  (case get_prop data (lit ''message'') of
                     Inl e \<Rightarrow> Inl e
                   | Inr m \<Rightarrow>
                       (case ToString_opt (if truthy m then m else Some (JStr (statusText response))) of
                          Inl e \<Rightarrow> Inl e
                        | Inr s \<Rightarrow> Inl (JsError (lit ''GoHighLevel API error: '' @ s) None)))
                else Inr data)),
      [ghl_fetch_request apiKey endpoint method body])"

datatype ghl_input =
    GetContacts jsstring "jsstring option" "int option" "int option"
  | GetContact jsstring jsstring
  | CreateContact jsstring json
  | UpdateContact jsstring jsstring json
  | AddContactTags jsstring jsstring "jsstring list"
  | RemoveContactTags jsstring jsstring "jsstring list"
  | GetTasks jsstring "int option" "int option"
  | CreateTask jsstring json
  | UpdateTask jsstring jsstring json
  | DeleteTask jsstring jsstring
  | GetOpportunities jsstring "jsstring option" "jsstring option" "int option" "int option"
  | CreateOpportunity jsstring json
  | GetPipelines jsstring
  | CreateCalendarEvent jsstring json
  | GetCalendars jsstring

text \<open>
  The \<^verbatim>\<open>URLSearchParams\<close> of \<^verbatim>\<open>getContacts\<close>, \<^verbatim>\<open>getTasks\<close> and \<^verbatim>\<open>getOpportunities\<close>: an
  entry is appended when its value is truthy (a non-empty string, a number other than 0).
\<close>

definition append_string :: "jsstring \<Rightarrow> jsstring option \<Rightarrow> (jsstring \<times> jsstring) list" where
  "append_string k v = (case v of None \<Rightarrow> [] | Some s \<Rightarrow> if s = [] then [] else [(k, s)])"

definition append_number :: "jsstring \<Rightarrow> int \<Rightarrow> (jsstring \<times> jsstring) list" where
  "append_number k n = (if n = 0 then [] else [(k, number_toString n)])"

definition getContacts_params ::
  "jsstring option \<Rightarrow> int \<Rightarrow> int \<Rightarrow> (jsstring \<times> jsstring) list" where
  "getContacts_params query page limit =
     append_string (lit ''query'') query @ append_number (lit ''page'') page
       @ append_number (lit ''limit'') limit"

definition getTasks_params :: "int \<Rightarrow> int \<Rightarrow> (jsstring \<times> jsstring) list" where
  "getTasks_params page limit =
     append_number (lit ''page'') page @ append_number (lit ''limit'') limit"

definition getOpportunities_params ::
  "jsstring option \<Rightarrow> jsstring option \<Rightarrow> int \<Rightarrow> int \<Rightarrow> (jsstring \<times> jsstring) list" where
  "getOpportunities_params pipelineId stageId page limit =
     append_string (lit ''pipelineId'') pipelineId @ append_string (lit ''stageId'') stageId
       @ append_number (lit ''page'') page @ append_number (lit ''limit'') limit"

text \<open>
  The arguments each handler passes to \<^verbatim>\<open>ghlRequest\<close>, after the defaults of its schema
  (\<^verbatim>\<open>page\<close> 1, \<^verbatim>\<open>limit\<close> 20): API key, endpoint, method, body.
\<close>

fun ghl_call :: "ghl_input \<Rightarrow> jsstring \<times> jsstring \<times> jsstring option \<times> json option" where
  "ghl_call (GetContacts apiKey query page limit) =
     (apiKey,
      lit ''/contacts?''
        @ URLSearchParams_toString (getContacts_params query (z_default 1 page) (z_default 20 limit)),
      None, None)"
| "ghl_call (GetContact apiKey contactId) = (apiKey, lit ''/contacts/'' @ contactId, None, None)"
| "ghl_call (CreateContact apiKey contactData) =
     (apiKey, lit ''/contacts'', Some (lit ''POST''), Some contactData)"
| "ghl_call (UpdateContact apiKey contactId contactData) =
     (apiKey, lit ''/contacts/'' @ contactId, Some (lit ''PUT''), Some contactData)"
| "ghl_call (AddContactTags apiKey contactId tags) =
     (apiKey, lit ''/contacts/'' @ contactId @ lit ''/tags'', Some (lit ''POST''),
      Some (JObj [(lit ''tags'', JArr (map JStr tags))]))"
| "ghl_call (RemoveContactTags apiKey contactId tags) =
     (apiKey, lit ''/contacts/'' @ contactId @ lit ''/tags'', Some (lit ''DELETE''),
      Some (JObj [(lit ''tags'', JArr (map JStr tags))]))"
| "ghl_call (GetTasks apiKey page limit) =
     (apiKey,
      lit ''/tasks?'' @ URLSearchParams_toString (getTasks_params (z_default 1 page) (z_default 20 limit)),
      None, None)"
| "ghl_call (CreateTask apiKey taskData) = (apiKey, lit ''/tasks'', Some (lit ''POST''), Some taskData)"
| "ghl_call (UpdateTask apiKey taskId taskData) =
     (apiKey, lit ''/tasks/'' @ taskId, Some (lit ''PUT''), Some taskData)"
| "ghl_call (DeleteTask apiKey taskId) =
     (apiKey, lit ''/tasks/'' @ taskId, Some (lit ''DELETE''), None)"
| "ghl_call (GetOpportunities apiKey pipelineId stageId page limit) =
     (apiKey,
      lit ''/opportunities?''
        @ URLSearchParams_toString
            (getOpportunities_params pipelineId stageId (z_default 1 page) (z_default 20 limit)),
      None, None)"
| "ghl_call (CreateOpportunity apiKey opportunityData) =
     (apiKey, lit ''/opportunities'', Some (lit ''POST''), Some opportunityData)"
| "ghl_call (GetPipelines apiKey) = (apiKey, lit ''/pipelines'', None, None)"
| "ghl_call (CreateCalendarEvent apiKey eventData) =
     (apiKey, lit ''/calendars/events'', Some (lit ''POST''), Some eventData)"
| "ghl_call (GetCalendars apiKey) = (apiKey, lit ''/calendars'', None, None)"

definition ghl_request :: "ghl_input \<Rightarrow> fetch_request" where
  "ghl_request i =
     (case ghl_call i of
        (apiKey, endpoint, method, body) \<Rightarrow> ghl_fetch_request apiKey endpoint method body)"

text \<open>The try block and the catch block that all fifteen handlers share.\<close>

definition ghl_try :: "fetch \<Rightarrow> ghl_input \<Rightarrow> fetch_request outcome" where
  "ghl_try fetch i =
     (case ghl_call i of
        (apiKey, endpoint, method, body) \<Rightarrow>
          (case ghlRequest fetch apiKey endpoint method body of
             (Inl e, calls) \<Rightarrow> (Inl e, calls)
           | (Inr data, calls) \<Rightarrow> (Inr (success_envelope (Some (JSON_stringify2 data))), calls)))"

definition error_message :: "thrown \<Rightarrow> jsstring option" where
  "error_message e = (case e of JsError m r \<Rightarrow> Some m | ThrownString s \<Rightarrow> None)"

definition ghl_catch :: "thrown \<Rightarrow> envelope" where
  "ghl_catch error =
     error_envelope (lit ''Error: '' @ z_default (lit ''undefined'') (error_message error))"

definition ghl_handler :: "fetch \<Rightarrow> ghl_input \<Rightarrow> fetch_request outcome" where
  "ghl_handler fetch i = try_catch (ghl_try fetch i) ghl_catch"

section \<open>Keap and Hubspot servers\<close>

text \<open>
  The handlers of both servers hold the same code after the request is built: one
  fetch; a response that is not ok is reported with its status, status text and body
  text; otherwise the body is parsed and printed with an indent of two.
\<close>

definition fetch_and_report :: "jsstring \<Rightarrow> fetch \<Rightarrow> fetch_request \<Rightarrow> fetch_request outcome" where
  "fetch_and_report label fetch req =
     ((case fetch req of
         Inl e \<Rightarrow> Inl e
       | Inr response \<Rightarrow>
           if \<not> ok response then
             (case response_text response of
                Inl e \<Rightarrow> Inl e
              | Inr errorText \<Rightarrow>
                  Inr (error_envelope
                        (label @ lit '': '' @ digits (status response) @ lit '' ''
                           @ statusText response @ [0x0A] @ errorText)))
           else
             (case response_json response of
                Inl e \<Rightarrow> Inl e
              | Inr data \<Rightarrow> Inr (success_envelope (Some (JSON_stringify2 data))))),
      [req])"

text \<open>\<^verbatim>\<open>error instanceof Error ? error.message : String(error)\<close>\<close>

definition message_or_String :: "thrown \<Rightarrow> jsstring" where
  "message_or_String error = (case error of JsError m r \<Rightarrow> m | ThrownString s \<Rightarrow> s)"

definition report_catch :: "jsstring \<Rightarrow> thrown \<Rightarrow> envelope" where
  "report_catch label error = error_envelope (label @ lit '': '' @ message_or_String error)"

datatype keap_input =
    KeapListContacts jsstring "int option" "jsstring list option"
  | KeapGetContact jsstring jsstring "jsstring list option"
  | KeapCreateContact jsstring json
  | KeapUpdateContact jsstring jsstring json
  | KeapSearchContacts jsstring jsstring "int option" "jsstring list option"
  | KeapListOpportunities jsstring "int option" "jsstring list option"

definition keap_contact_fields :: "jsstring list" where
  "keap_contact_fields = [lit ''email'', lit ''given_name'', lit ''family_name'']"

definition keap_opportunity_fields :: "jsstring list" where
  "keap_opportunity_fields =
     [lit ''title'', lit ''stage'', lit ''contact'', lit ''estimated_close_date'']"

definition get_request :: "jsstring \<Rightarrow> jsstring \<Rightarrow> fetch_request" where
  "get_request apiKey url =
     \<lparr>req_url = url, req_method = None, req_headers = bearer_headers apiKey, req_body = None\<rparr>"

definition body_request :: "jsstring \<Rightarrow> jsstring \<Rightarrow> jsstring \<Rightarrow> json \<Rightarrow> fetch_request" where
  "body_request apiKey url method body =
     \<lparr>req_url = url, req_method = Some method, req_headers = bearer_headers apiKey,
      req_body = Some (JSON_stringify body)\<rparr>"

text \<open>
  \<^verbatim>\<open>keap-search-contacts\<close>: the search parameter is \<^verbatim>\<open>email\<close> when the query holds an
  \<^verbatim>\<open>@\<close> and \<^verbatim>\<open>given_name\<close> otherwise, its value percent-encoded; \<^verbatim>\<open>fields\<close> is joined
  with commas and not encoded.
\<close>

definition keap_searchParam :: "jsstring \<Rightarrow> thrown + jsstring" where
  "keap_searchParam query =
     (if String_includes query (lit ''@'')
      then map_sum id ((@) (lit ''email='')) (encodeURIComponent query)
      else map_sum id ((@) (lit ''given_name='')) (encodeURIComponent query))"

definition keap_search_query :: "jsstring \<Rightarrow> int \<Rightarrow> jsstring list \<Rightarrow> thrown + jsstring" where
  "keap_search_query query limit fieldNames =
     map_sum id
       (\<lambda>searchParam. searchParam @ lit ''&limit='' @ number_toString limit
           @ lit ''&fields='' @ array_join [0x2C] fieldNames)
       (keap_searchParam query)"

text \<open>The request each handler builds, after the defaults of its schema.\<close>

fun keap_request :: "keap_input \<Rightarrow> thrown + fetch_request" where
  "keap_request (KeapListContacts apiKey limit fieldNames) =
     Inr (get_request apiKey
       (lit ''https://api.infusionsoft.com/crm/rest/v1/contacts?limit=''
          @ number_toString (z_default 10 limit) @ lit ''&fields=''
          @ array_join [0x2C] (z_default keap_contact_fields fieldNames)))"
| "keap_request (KeapGetContact apiKey contactId fieldNames) =
     Inr (get_request apiKey
       (lit ''https://api.infusionsoft.com/crm/rest/v1/contacts/'' @ contactId @ lit ''?fields=''
          @ array_join [0x2C] (z_default keap_contact_fields fieldNames)))"
| "keap_request (KeapCreateContact apiKey contact) =
     Inr (body_request apiKey (lit ''https://api.infusionsoft.com/crm/rest/v1/contacts'')
            (lit ''POST'') contact)"
| "keap_request (KeapUpdateContact apiKey contactId contact) =
     Inr (body_request apiKey
            (lit ''https://api.infusionsoft.com/crm/rest/v1/contacts/'' @ contactId)
            (lit ''PATCH'') contact)"
| "keap_request (KeapSearchContacts apiKey query limit fieldNames) =
     map_sum id
       (\<lambda>q. get_request apiKey (lit ''https://api.infusionsoft.com/crm/rest/v1/contacts?'' @ q))
       (keap_search_query query (z_default 10 limit) (z_default keap_contact_fields fieldNames))"
| "keap_request (KeapListOpportunities apiKey limit fieldNames) =
     Inr (get_request apiKey
       (lit ''https://api.infusionsoft.com/crm/rest/v1/opportunities?limit=''
          @ number_toString (z_default 10 limit) @ lit ''&fields=''
          @ array_join [0x2C] (z_default keap_opportunity_fields fieldNames)))"

fun keap_label :: "keap_input \<Rightarrow> jsstring" where
  "keap_label (KeapListContacts apiKey limit fieldNames) = lit ''Error fetching Keap contacts''"
| "keap_label (KeapGetContact apiKey contactId fieldNames) = lit ''Error fetching Keap contact''"
| "keap_label (KeapCreateContact apiKey contact) = lit ''Error creating Keap contact''"
| "keap_label (KeapUpdateContact apiKey contactId contact) = lit ''Error updating Keap contact''"
| "keap_label (KeapSearchContacts apiKey query limit fieldNames) = lit ''Error searching Keap contacts''"
| "keap_label (KeapListOpportunities apiKey limit fieldNames) = lit ''Error fetching Keap opportunities''"

definition keap_try :: "fetch \<Rightarrow> keap_input \<Rightarrow> fetch_request outcome" where
  "keap_try fetch i =
     (case keap_request i of
        Inl e \<Rightarrow> (Inl e, [])
      | Inr req \<Rightarrow> fetch_and_report (keap_label i) fetch req)"

definition keap_handler :: "fetch \<Rightarrow> keap_input \<Rightarrow> fetch_request outcome" where
  "keap_handler fetch i = try_catch (keap_try fetch i) (report_catch (keap_label i))"

datatype hubspot_input =
    HubspotListContacts jsstring "int option" "jsstring list option"
  | HubspotGetContact jsstring jsstring "jsstring list option"
  | HubspotCreateContact jsstring "(jsstring \<times> jsstring) list"
  | HubspotUpdateContact jsstring jsstring "(jsstring \<times> jsstring) list"
  | HubspotSearchContacts jsstring jsstring "int option" "jsstring list option"
  | HubspotListDeals jsstring "int option" "jsstring list option"

definition hubspot_contact_properties :: "jsstring list" where
  "hubspot_contact_properties = [lit ''email'', lit ''firstname'', lit ''lastname'']"

definition hubspot_deal_properties :: "jsstring list" where
  "hubspot_deal_properties = [lit ''dealname'', lit ''amount'', lit ''dealstage'']"

text \<open>
  \<^verbatim>\<open>properties.map(p => `properties=${encodeURIComponent(p)}`).join('&')\<close>: the first
  property that cannot be encoded throws.
\<close>

definition propertiesQuery :: "jsstring list \<Rightarrow> thrown + jsstring" where
  "propertiesQuery properties =
     sequence_join [0x26]
       (map (\<lambda>p. map_sum id ((@) (lit ''properties='')) (encodeURIComponent p)) properties)"

definition properties_object :: "(jsstring \<times> jsstring) list \<Rightarrow> json" where
  "properties_object properties =
     JObj [(lit ''properties'', JObj (map (\<lambda>(k, v). (k, JStr v)) properties))]"

definition hubspot_search_body :: "jsstring \<Rightarrow> int \<Rightarrow> jsstring list \<Rightarrow> json" where
  "hubspot_search_body query limit properties =
     JObj [(lit ''filterGroups'',
            JArr [JObj [(lit ''filters'',
                         JArr [JObj [(lit ''propertyName'', JStr (lit ''email'')),
                                     (lit ''operator'', JStr (lit ''CONTAINS_TOKEN'')),
                                     (lit ''value'', JStr query)]])]]),
           (lit ''properties'', JArr (map JStr properties)),
           (lit ''limit'', JNum limit)]"

fun hubspot_request :: "hubspot_input \<Rightarrow> thrown + fetch_request" where
  "hubspot_request (HubspotListContacts apiKey limit properties) =
     map_sum id
       (\<lambda>q. get_request apiKey
               (lit ''https://api.hubapi.com/crm/v3/objects/contacts?limit=''
                  @ number_toString (z_default 10 limit) @ lit ''&'' @ q))
       (propertiesQuery (z_default hubspot_contact_properties properties))"
| "hubspot_request (HubspotGetContact apiKey contactId properties) =
     map_sum id
       (\<lambda>q. get_request apiKey
               (lit ''https://api.hubapi.com/crm/v3/objects/contacts/'' @ contactId @ lit ''?'' @ q))
       (propertiesQuery (z_default hubspot_contact_properties properties))"
| "hubspot_request (HubspotCreateContact apiKey properties) =
     Inr (body_request apiKey (lit ''https://api.hubapi.com/crm/v3/objects/contacts'')
            (lit ''POST'') (properties_object properties))"
| "hubspot_request (HubspotUpdateContact apiKey contactId properties) =
     Inr (body_request apiKey
            (lit ''https://api.hubapi.com/crm/v3/objects/contacts/'' @ contactId)
            (lit ''PATCH'') (properties_object properties))"
| "hubspot_request (HubspotSearchContacts apiKey query limit properties) =
     Inr (body_request apiKey (lit ''https://api.hubapi.com/crm/v3/objects/contacts/search'')
            (lit ''POST'')
            (hubspot_search_body query (z_default 10 limit)
               (z_default hubspot_contact_properties properties)))"
| "hubspot_request (HubspotListDeals apiKey limit properties) =
     map_sum id
       (\<lambda>q. get_request apiKey
               (lit ''https://api.hubapi.com/crm/v3/objects/deals?limit=''
                  @ number_toString (z_default 10 limit) @ lit ''&'' @ q))
       (propertiesQuery (z_default hubspot_deal_properties properties))"

fun hubspot_label :: "hubspot_input \<Rightarrow> jsstring" where
  "hubspot_label (HubspotListContacts apiKey limit properties) = lit ''Error fetching Hubspot contacts''"
| "hubspot_label (HubspotGetContact apiKey contactId properties) = lit ''Error fetching Hubspot contact''"
| "hubspot_label (HubspotCreateContact apiKey properties) = lit ''Error creating Hubspot contact''"
| "hubspot_label (HubspotUpdateContact apiKey contactId properties) = lit ''Error updating Hubspot contact''"
| "hubspot_label (HubspotSearchContacts apiKey query limit properties) = lit ''Error searching Hubspot contacts''"
| "hubspot_label (HubspotListDeals apiKey limit properties) = lit ''Error fetching Hubspot deals''"

definition hubspot_try :: "fetch \<Rightarrow> hubspot_input \<Rightarrow> fetch_request outcome" where
  "hubspot_try fetch i =
     (case hubspot_request i of
        Inl e \<Rightarrow> (Inl e, [])
      | Inr req \<Rightarrow> fetch_and_report (hubspot_label i) fetch req)"

definition hubspot_handler :: "fetch \<Rightarrow> hubspot_input \<Rightarrow> fetch_request outcome" where
  "hubspot_handler fetch i = try_catch (hubspot_try fetch i) (report_catch (hubspot_label i))"

section \<open>FreshWorks server\<close>

text \<open>
  The handlers call axios. A call is recorded as the client it was made on (base URL and
  headers, from \<^verbatim>\<open>createApiClient\<close>), the method, the path, the \<^verbatim>\<open>params\<close> object and the
  payload; a property of the payload may be \<^verbatim>\<open>undefined\<close>. axios resolves to a response
  whose \<^verbatim>\<open>data\<close> the handlers read, and rejects on a status outside 2xx with an error
  that carries \<^verbatim>\<open>response\<close>.
\<close>

record axios_client =
  baseURL :: jsstring
  client_headers :: "(jsstring \<times> jsstring) list"

record axios_request =
  ax_client :: axios_client
  ax_method :: jsstring
  ax_url :: jsstring
  ax_params :: "(jsstring \<times> json) list option"
  ax_data :: "(jsstring \<times> json option) list option"

type_synonym axios = "axios_request \<Rightarrow> thrown + json"

definition handleApiError :: "thrown \<Rightarrow> jsstring" where
  "handleApiError error =
     (case error of
        JsError m (Some (st, data)) \<Rightarrow>
          lit ''API Error ('' @ digits st @ lit ''): '' @ JSON_stringify data
      | JsError m None \<Rightarrow> lit ''Error: '' @ (if m \<noteq> [] then m else lit ''Unknown error'')
      | ThrownString s \<Rightarrow> lit ''Error: '' @ lit ''Unknown error'')"

definition createApiClient :: "jsstring \<Rightarrow> jsstring \<Rightarrow> axios_client" where
  "createApiClient apiKey baseUrl = \<lparr>baseURL = baseUrl, client_headers = bearer_headers apiKey\<rparr>"

definition freshdesk_client :: "jsstring \<Rightarrow> jsstring \<Rightarrow> axios_client" where
  "freshdesk_client apiKey subdomain =
     createApiClient apiKey (lit ''https://'' @ subdomain @ lit ''.freshdesk.com/api/v2'')"

definition freshchat_client :: "jsstring \<Rightarrow> jsstring \<Rightarrow> axios_client" where
  "freshchat_client apiKey domain = createApiClient apiKey (lit ''https://'' @ domain @ lit ''/v2'')"

definition client_get ::
  "axios_client \<Rightarrow> jsstring \<Rightarrow> (jsstring \<times> json) list option \<Rightarrow> axios_request" where
  "client_get client url params =
     \<lparr>ax_client = client, ax_method = lit ''get'', ax_url = url, ax_params = params, ax_data = None\<rparr>"

definition client_post ::
  "axios_client \<Rightarrow> jsstring \<Rightarrow> (jsstring \<times> json option) list \<Rightarrow> axios_request" where
  "client_post client url payload =
     \<lparr>ax_client = client, ax_method = lit ''post'', ax_url = url, ax_params = None,
      ax_data = Some payload\<rparr>"

definition client_put ::
  "axios_client \<Rightarrow> jsstring \<Rightarrow> (jsstring \<times> json option) list \<Rightarrow> axios_request" where
  "client_put client url payload =
     \<lparr>ax_client = client, ax_method = lit ''put'', ax_url = url, ax_params = None,
      ax_data = Some payload\<rparr>"

text \<open>
  \<^verbatim>\<open>if (x) payload.key = x\<close> for an optional string, and the entries of an object that
  are not \<^verbatim>\<open>undefined\<close>.
\<close>

definition if_truthy :: "jsstring \<Rightarrow> jsstring option \<Rightarrow> (jsstring \<times> json) list" where
  "if_truthy k v = (case v of None \<Rightarrow> [] | Some s \<Rightarrow> if s = [] then [] else [(k, JStr s)])"

definition defined_entries :: "(jsstring \<times> json option) list \<Rightarrow> (jsstring \<times> json option) list" where
  "defined_entries kvs = filter (\<lambda>(k, v). v \<noteq> None) kvs"

definition present :: "(jsstring \<times> json) list \<Rightarrow> (jsstring \<times> json option) list" where
  "present kvs = map (\<lambda>(k, v). (k, Some v)) kvs"

definition tags_json :: "jsstring list \<Rightarrow> json" where
  "tags_json tags = JArr (map JStr tags)"

datatype freshworks_input =
    FreshdeskListTickets jsstring jsstring "int option" "int option" "jsstring option"
  | FreshdeskGetTicket jsstring jsstring int
  | FreshdeskCreateTicket jsstring jsstring jsstring jsstring jsstring "int option" "int option"
      "jsstring list option"
  | FreshdeskUpdateTicket jsstring jsstring int "jsstring option" "jsstring option" "int option"
      "int option" "jsstring list option"
  | FreshdeskAddNote jsstring jsstring int jsstring "bool option"
  | FreshdeskListContacts jsstring jsstring "int option" "int option"
  | FreshdeskGetContact jsstring jsstring int
  | FreshdeskCreateContact jsstring jsstring jsstring jsstring "jsstring option" "jsstring option"
      "jsstring option" "jsstring option" "jsstring option"
  | FreshdeskUpdateContact jsstring jsstring int "jsstring option" "jsstring option"
      "jsstring option" "jsstring option" "jsstring option" "jsstring option"
  | FreshchatListConversations jsstring jsstring "jsstring option" "jsstring option" "int option"
      "int option"
  | FreshchatGetConversation jsstring jsstring jsstring
  | FreshchatSendMessage jsstring jsstring jsstring "jsstring option" jsstring jsstring
      "jsstring option"

text \<open>The axios call of each handler, after the defaults of its schema.\<close>

fun freshworks_request :: "freshworks_input \<Rightarrow> axios_request" where
  "freshworks_request (FreshdeskListTickets apiKey subdomain page perPage filter_arg) =
     client_get (freshdesk_client apiKey subdomain) (lit ''/tickets'')
       (Some ([(lit ''page'', JNum (z_default 1 page)), (lit ''per_page'', JNum (z_default 30 perPage))]
              @ if_truthy (lit ''filter'') filter_arg))"
| "freshworks_request (FreshdeskGetTicket apiKey subdomain ticketId) =
     client_get (freshdesk_client apiKey subdomain) (lit ''/tickets/'' @ number_toString ticketId) None"
| "freshworks_request
     (FreshdeskCreateTicket apiKey subdomain subject description email priority status_arg tags) =
     client_post (freshdesk_client apiKey subdomain) (lit ''/tickets'')
       [(lit ''subject'', Some (JStr subject)),
        (lit ''description'', Some (JStr description)),
        (lit ''email'', Some (JStr email)),
        (lit ''priority'', Some (JNum (z_default 2 priority))),
        (lit ''status'', Some (JNum (z_default 2 status_arg))),
        (lit ''tags'', map_option tags_json tags)]"
| "freshworks_request
     (FreshdeskUpdateTicket apiKey subdomain ticketId subject description priority status_arg tags) =
     client_put (freshdesk_client apiKey subdomain) (lit ''/tickets/'' @ number_toString ticketId)
       (defined_entries
         [(lit ''subject'', map_option JStr subject),
          (lit ''description'', map_option JStr description),
          (lit ''priority'', map_option JNum priority),
          (lit ''status'', map_option JNum status_arg),
          (lit ''tags'', map_option tags_json tags)])"
| "freshworks_request (FreshdeskAddNote apiKey subdomain ticketId body isPrivate) =
     client_post (freshdesk_client apiKey subdomain)
       (lit ''/tickets/'' @ number_toString ticketId @ lit ''/notes'')
       [(lit ''body'', Some (JStr body)),
        (lit ''private'', Some (JBool (z_default True isPrivate)))]"
| "freshworks_request (FreshdeskListContacts apiKey subdomain page perPage) =
     client_get (freshdesk_client apiKey subdomain) (lit ''/contacts'')
       (Some [(lit ''page'', JNum (z_default 1 page)), (lit ''per_page'', JNum (z_default 30 perPage))])"
| "freshworks_request (FreshdeskGetContact apiKey subdomain contactId) =
     client_get (freshdesk_client apiKey subdomain) (lit ''/contacts/'' @ number_toString contactId) None"
| "freshworks_request
     (FreshdeskCreateContact apiKey subdomain name email phone mobilePhone twitterId companyName
        description) =
     client_post (freshdesk_client apiKey subdomain) (lit ''/contacts'')
       (present
         ([(lit ''name'', JStr name), (lit ''email'', JStr email)]
          @ if_truthy (lit ''phone'') phone
          @ if_truthy (lit ''mobile'') mobilePhone
          @ if_truthy (lit ''twitter_id'') twitterId
          @ if_truthy (lit ''description'') description
          @ (case companyName of
               None \<Rightarrow> []
             | Some c \<Rightarrow>
                 if c = [] then []
                 else [(lit ''company_id'', JNull),
                       (lit ''other_companies'', JArr [JObj [(lit ''name'', JStr c)]])])))"
| "freshworks_request
     (FreshdeskUpdateContact apiKey subdomain contactId name email phone mobilePhone twitterId
        description) =
     client_put (freshdesk_client apiKey subdomain) (lit ''/contacts/'' @ number_toString contactId)
       (present
         (if_truthy (lit ''name'') name
          @ if_truthy (lit ''email'') email
          @ if_truthy (lit ''phone'') phone
          @ if_truthy (lit ''mobile'') mobilePhone
          @ if_truthy (lit ''twitter_id'') twitterId
          @ if_truthy (lit ''description'') description))"
| "freshworks_request
     (FreshchatListConversations apiKey domain assigneeId status_arg page itemsPerPage) =
     client_get (freshchat_client apiKey domain) (lit ''/conversations'')
       (Some ([(lit ''page'', JNum (z_default 1 page)),
               (lit ''items_per_page'', JNum (z_default 20 itemsPerPage))]
              @ if_truthy (lit ''assignee_id'') assigneeId
              @ if_truthy (lit ''status'') status_arg))"
| "freshworks_request (FreshchatGetConversation apiKey domain conversationId) =
     client_get (freshchat_client apiKey domain) (lit ''/conversations/'' @ conversationId) None"
| "freshworks_request
     (FreshchatSendMessage apiKey domain conversationId actorType actorId message messageType) =
     client_post (freshchat_client apiKey domain)
       (lit ''/conversations/'' @ conversationId @ lit ''/messages'')
       [(lit ''actor_type'', Some (JStr (z_default (lit ''agent'') actorType))),
        (lit ''actor_id'', Some (JStr actorId)),
        (lit ''message_type'', Some (JStr (z_default (lit ''normal'') messageType))),
        (lit ''message'',
         Some (JObj [(lit ''type'', JStr (lit ''text'')), (lit ''text'', JStr message)]))]"

text \<open>
  The line a mutating handler puts before the serialized response, with the blank line
  after it. The two \<^verbatim>\<open>create\<close> handlers read \<^verbatim>\<open>response.data.id\<close>, which throws when
  the response is \<^verbatim>\<open>null\<close>.
\<close>

definition created_line :: "jsstring \<Rightarrow> json \<Rightarrow> thrown + jsstring" where
  "created_line what data =
     (case get_prop data (lit ''id'') of
        Inl e \<Rightarrow> Inl e
      | Inr v \<Rightarrow>
          map_sum id (\<lambda>s. what @ lit '' created successfully with ID: '' @ s @ [0x0A, 0x0A])
            (ToString_opt v))"

fun freshworks_prefix :: "freshworks_input \<Rightarrow> json \<Rightarrow> thrown + jsstring" where
  "freshworks_prefix
     (FreshdeskCreateTicket apiKey subdomain subject description email priority status_arg tags) data =
     created_line (lit ''Ticket'') data"
| "freshworks_prefix
     (FreshdeskUpdateTicket apiKey subdomain ticketId subject description priority status_arg tags) data =
     Inr (lit ''Ticket '' @ number_toString ticketId @ lit '' updated successfully'' @ [0x0A, 0x0A])"
| "freshworks_prefix (FreshdeskAddNote apiKey subdomain ticketId body isPrivate) data =
     Inr (lit ''Note added successfully to ticket '' @ number_toString ticketId @ [0x0A, 0x0A])"
| "freshworks_prefix
     (FreshdeskCreateContact apiKey subdomain name email phone mobilePhone twitterId companyName
        description) data =
     created_line (lit ''Contact'') data"
| "freshworks_prefix
     (FreshdeskUpdateContact apiKey subdomain contactId name email phone mobilePhone twitterId
        description) data =
     Inr (lit ''Contact '' @ number_toString contactId @ lit '' updated successfully'' @ [0x0A, 0x0A])"
| "freshworks_prefix
     (FreshchatSendMessage apiKey domain conversationId actorType actorId message messageType) data =
     Inr (lit ''Message sent successfully to conversation '' @ conversationId @ [0x0A, 0x0A])"
| "freshworks_prefix i data = Inr []"

definition freshworks_try :: "axios \<Rightarrow> freshworks_input \<Rightarrow> axios_request outcome" where
  "freshworks_try axios i =
     ((case axios (freshworks_request i) of
         Inl e \<Rightarrow> Inl e
       | Inr data \<Rightarrow>
           (case freshworks_prefix i data of
              Inl e \<Rightarrow> Inl e
            | Inr prefix \<Rightarrow> Inr (success_envelope (Some (prefix @ JSON_stringify2 data))))),
      [freshworks_request i])"

definition freshworks_catch :: "thrown \<Rightarrow> envelope" where
  "freshworks_catch error = error_envelope (handleApiError error)"

definition freshworks_handler :: "axios \<Rightarrow> freshworks_input \<Rightarrow> axios_request outcome" where
  "freshworks_handler axios i = try_catch (freshworks_try axios i) freshworks_catch"

section \<open>Pipedrive server\<close>

text \<open>
  The handlers call the Pipedrive SDK, whose methods are declared to return
  \<^verbatim>\<open>Promise<any>\<close>: a call resolves to some value, possibly \<^verbatim>\<open>undefined\<close>, or rejects.
  The handlers print the \<^verbatim>\<open>data\<close> property of what it resolves to.
\<close>

datatype pipedrive_call =
    PersonsApi_getPersons
  | PersonsApi_getPerson int
  | PersonsApi_searchPersons jsstring
  | OrganizationsApi_getOrganizations
  | OrganizationsApi_getOrganization int
  | OrganizationsApi_searchOrganizations jsstring

type_synonym pipedrive_sdk = "pipedrive_call \<Rightarrow> thrown + json option"

definition isErrorWithMessage :: "thrown \<Rightarrow> bool" where
  "isErrorWithMessage error = (case error of JsError m r \<Rightarrow> True | ThrownString s \<Rightarrow> False)"

definition getErrorMessage :: "thrown \<Rightarrow> jsstring" where
  "getErrorMessage error =
     (if isErrorWithMessage error then z_default [] (error_message error)
      else (case error of ThrownString s \<Rightarrow> s | JsError m r \<Rightarrow> m))"

datatype pipedrive_input =
    GetAllPersons
  | GetPersonByID int
  | SearchPersons jsstring
  | GetAllOrganizations
  | GetOrganizationByID int
  | SearchOrganizations jsstring

fun pipedrive_request :: "pipedrive_input \<Rightarrow> pipedrive_call" where
  "pipedrive_request GetAllPersons = PersonsApi_getPersons"
| "pipedrive_request (GetPersonByID personId) = PersonsApi_getPerson personId"
| "pipedrive_request (SearchPersons term) = PersonsApi_searchPersons term"
| "pipedrive_request GetAllOrganizations = OrganizationsApi_getOrganizations"
| "pipedrive_request (GetOrganizationByID organizationId) = OrganizationsApi_getOrganization organizationId"
| "pipedrive_request (SearchOrganizations term) = OrganizationsApi_searchOrganizations term"

fun pipedrive_label :: "pipedrive_input \<Rightarrow> jsstring" where
  "pipedrive_label GetAllPersons = lit ''Error fetching persons''"
| "pipedrive_label (GetPersonByID personId) = lit ''Error fetching person '' @ number_toString personId"
| "pipedrive_label (SearchPersons term) = lit ''Error searching persons''"
| "pipedrive_label GetAllOrganizations = lit ''Error fetching organizations''"
| "pipedrive_label (GetOrganizationByID organizationId) =
     lit ''Error fetching organization '' @ number_toString organizationId"
| "pipedrive_label (SearchOrganizations term) = lit ''Error searching organizations''"

definition pipedrive_try :: "pipedrive_sdk \<Rightarrow> pipedrive_input \<Rightarrow> pipedrive_call outcome" where
  "pipedrive_try sdk i =
     ((case sdk (pipedrive_request i) of
         Inl e \<Rightarrow> Inl e
       | Inr response \<Rightarrow>
           (case get_prop_opt response (lit ''data'') of
              Inl e \<Rightarrow> Inl e
            | Inr data \<Rightarrow> Inr (success_envelope (map_option JSON_stringify2 data)))),
      [pipedrive_request i])"

definition pipedrive_catch :: "jsstring \<Rightarrow> thrown \<Rightarrow> envelope" where
  "pipedrive_catch label error = error_envelope (label @ lit '': '' @ getErrorMessage error)"

definition pipedrive_handler :: "pipedrive_sdk \<Rightarrow> pipedrive_input \<Rightarrow> pipedrive_call outcome" where
  "pipedrive_handler sdk i = try_catch (pipedrive_try sdk i) (pipedrive_catch (pipedrive_label i))"

section \<open>Transport fakes\<close>

text \<open>
  The vendor side of the scenarios: a transport that answers every request with one
  response, a transport that rejects every call, a response that carries a JSON
  document, and a response whose body is some text that \<^verbatim>\<open>json()\<close> rejects.
\<close>

definition fake_fetch :: "response \<Rightarrow> fetch" where
  "fake_fetch r = (\<lambda>req. Inr r)"

definition rejecting :: "thrown \<Rightarrow> 'c \<Rightarrow> thrown + 'r" where
  "rejecting e = (\<lambda>req. Inl e)"

definition resolving :: "'r \<Rightarrow> 'c \<Rightarrow> thrown + 'r" where
  "resolving v = (\<lambda>req. Inr v)"

definition json_response :: "nat \<Rightarrow> jsstring \<Rightarrow> json \<Rightarrow> response" where
  "json_response st stText v =
     \<lparr>status = st, statusText = stText, response_text = Inr (JSON_stringify v),
      response_json = Inr v\<rparr>"

definition text_response :: "nat \<Rightarrow> jsstring \<Rightarrow> jsstring \<Rightarrow> thrown \<Rightarrow> response" where
  "text_response st stText t e =
     \<lparr>status = st, statusText = stText, response_text = Inr t, response_json = Inl e\<rparr>"


definition body_id_42 :: json where
  "body_id_42 = JObj [(lit ''id'', JNum 42)]"

definition pretty_id_42 :: jsstring where
  "pretty_id_42 = lit ''{'' @ [0x0A] @ lit ''  '' @ [0x22] @ lit ''id'' @ [0x22] @ lit '': 42''
     @ [0x0A] @ lit ''}''"

text \<open>A code unit that QuoteJSONString copies unchanged, wherever it stands.\<close>

definition plain_unit :: "16 word \<Rightarrow> bool" where
  "plain_unit c = (0x20 \<le> unat c \<and> unat c \<noteq> 0x22 \<and> unat c \<noteq> 0x5C \<and> unat c < 0xD800)"

section \<open>Reading decimal strings and query strings\<close>

text \<open>
  The number a string of decimal digits stands for; and a query string taken apart the
  way a server does it: split at every \<^verbatim>\<open>&\<close>, each piece split at its first \<^verbatim>\<open>=\<close>.
  \<open>encoded_unit\<close> holds of the code units encodeURIComponent can put out.
\<close>

definition decimal_value :: "jsstring \<Rightarrow> nat" where
  "decimal_value s = foldl (\<lambda>a u. 10 * a + (unat u - 48)) 0 s"

fun split_on :: "'a \<Rightarrow> 'a list \<Rightarrow> 'a list list" where
  "split_on c [] = [[]]"
| "split_on c (x # xs) =
     (if x = c then [] # split_on c xs
      else (x # hd (split_on c xs)) # tl (split_on c xs))"

definition key_value :: "jsstring \<Rightarrow> jsstring \<times> jsstring" where
  "key_value s = (takeWhile (\<lambda>u. u \<noteq> 0x3D) s, drop 1 (dropWhile (\<lambda>u. u \<noteq> 0x3D) s))"

definition query_pairs :: "jsstring \<Rightarrow> (jsstring \<times> jsstring) list" where
  "query_pairs s = map key_value (split_on 0x26 s)"

definition encoded_unit :: "16 word \<Rightarrow> bool" where
  "encoded_unit u = (uri_unescaped (unat u) \<or> unat u = 0x25)"

section \<open>JSON.parse\<close>

text \<open>
  The handlers never call \<^verbatim>\<open>JSON.parse\<close>; it is what a reader of an envelope's text, and
  the vendor side of a scenario, do with a text. The model reads the grammar of JSON
  over code units: white space is space, tab, line feed and carriage return; a number
  is an integer in decimal notation (a fraction or an exponent is outside of the
  integers of this theory and is not read); a string is read up to its closing quote,
  with the two-character escapes and the escape of four hexadecimal digits; a key that comes twice keeps
  its first place and takes the last value, as a property assignment does.
\<close>

definition is_ws :: "16 word \<Rightarrow> bool" where
  "is_ws c = (c = 0x20 \<or> c = 0x09 \<or> c = 0x0A \<or> c = 0x0D)"

definition skip_ws :: "jsstring \<Rightarrow> jsstring" where
  "skip_ws s = dropWhile is_ws s"

text \<open>
  The inside of a string, after the opening quote. \<open>parse_escape\<close> reads what follows
  a backslash and gives the code unit and the number of code units it read.
\<close>

definition is_digit :: "16 word \<Rightarrow> bool" where
  "is_digit c = (0x30 \<le> unat c \<and> unat c \<le> 0x39)"

definition hex_value :: "16 word \<Rightarrow> nat option" where
  "hex_value c =
     (let n = unat c
      in if 0x30 \<le> n \<and> n \<le> 0x39 then Some (n - 0x30)
         else if 0x41 \<le> n \<and> n \<le> 0x46 then Some (n - 0x37)
         else if 0x61 \<le> n \<and> n \<le> 0x66 then Some (n - 0x57)
         else None)"

definition simple_escape :: "16 word \<Rightarrow> 16 word option" where
  "simple_escape e =
     (if e = 0x22 then Some 0x22
      else if e = 0x5C then Some 0x5C
      else if e = 0x2F then Some 0x2F
      else if e = 0x62 then Some 0x08
      else if e = 0x66 then Some 0x0C
      else if e = 0x6E then Some 0x0A
      else if e = 0x72 then Some 0x0D
      else if e = 0x74 then Some 0x09
      else None)"

fun parse_escape :: "jsstring \<Rightarrow> (16 word \<times> nat) option" where
  "parse_escape [] = None"
| "parse_escape (e # t) =
     (if e = 0x75 then
        (case t of
           h1 # h2 # h3 # h4 # r \<Rightarrow>
             (case (hex_value h1, hex_value h2, hex_value h3, hex_value h4) of
                (Some a, Some b, Some c, Some d) \<Rightarrow>
                  Some (of_nat (4096 * a + 256 * b + 16 * c + d), 5)
              | _ \<Rightarrow> None)
         | _ \<Rightarrow> None)
      else (case simple_escape e of None \<Rightarrow> None | Some x \<Rightarrow> Some (x, 1)))"

fun parse_chars :: "jsstring \<Rightarrow> (jsstring \<times> jsstring) option" where
  "parse_chars [] = None"
| "parse_chars (c # s) =
     (if c = 0x22 then Some ([], s)
      else if c = 0x5C then
        (case parse_escape s of
           None \<Rightarrow> None
         | Some (x, k) \<Rightarrow> map_option (apfst ((#) x)) (parse_chars (drop k s)))
      else if unat c < 0x20 then None
      else map_option (apfst ((#) c)) (parse_chars s))"

text \<open>
  A number: an optional minus sign and decimal digits, without a leading zero before
  another digit.
\<close>

definition parse_number :: "jsstring \<Rightarrow> (int \<times> jsstring) option" where
  "parse_number s =
     (let neg = (s \<noteq> [] \<and> hd s = 0x2D);
          s1 = (if neg then tl s else s);
          ds = takeWhile is_digit s1;
          rest = dropWhile is_digit s1
      in if ds = [] then None
         else if 1 < length ds \<and> hd ds = 0x30 then None
         else if rest \<noteq> [] \<and> (hd rest = 0x2E \<or> hd rest = 0x65 \<or> hd rest = 0x45) then None
         else Some (if neg then - int (decimal_value ds) else int (decimal_value ds), rest))"

text \<open>
  Values, the elements of an array after its opening bracket and the members of an
  object after its opening brace. The first argument bounds the number of nested
  calls; \<open>JSON_parse\<close> gives it the length of the text, which is enough for every text
  that JSON.stringify prints (lemma \<open>fuel_of_length\<close> below). \<open>None\<close> is the SyntaxError,
  or a text that holds a number with a fraction or an exponent.
\<close>

fun set_property :: "(jsstring \<times> json) list \<Rightarrow> jsstring \<Rightarrow> json \<Rightarrow> (jsstring \<times> json) list" where
  "set_property [] k v = [(k, v)]"
| "set_property (p # ps) k v = (if fst p = k then (k, v) # ps else p # set_property ps k v)"

definition expect :: "16 word \<Rightarrow> jsstring \<Rightarrow> jsstring option" where
  "expect x s = (case skip_ws s of [] \<Rightarrow> None | c # r \<Rightarrow> if c = x then Some r else None)"

fun parse_value :: "nat \<Rightarrow> jsstring \<Rightarrow> (json \<times> jsstring) option"
  and parse_elements :: "nat \<Rightarrow> jsstring \<Rightarrow> json list \<Rightarrow> (json \<times> jsstring) option"
  and parse_members :: "nat \<Rightarrow> jsstring \<Rightarrow> (jsstring \<times> json) list \<Rightarrow> (json \<times> jsstring) option"
where
  "parse_value 0 s = None"
| "parse_value (Suc n) s =
     (case skip_ws s of
        [] \<Rightarrow> None
      | c # t \<Rightarrow>
          if c = 0x7B then
            (case expect 0x7D t of Some r \<Rightarrow> Some (JObj [], r) | None \<Rightarrow> parse_members n t [])
          else if c = 0x5B then
            (case expect 0x5D t of Some r \<Rightarrow> Some (JArr [], r) | None \<Rightarrow> parse_elements n t [])
          else if c = 0x22 then map_option (apfst JStr) (parse_chars t)
          else if startsWith (c # t) (lit ''true'') then Some (JBool True, drop 4 (c # t))
          else if startsWith (c # t) (lit ''false'') then Some (JBool False, drop 5 (c # t))
          else if startsWith (c # t) (lit ''null'') then Some (JNull, drop 4 (c # t))
          else map_option (apfst JNum) (parse_number (c # t)))"
| "parse_elements 0 s acc = None"
| "parse_elements (Suc n) s acc =
     (case parse_value n s of
        None \<Rightarrow> None
      | Some (v, r) \<Rightarrow>
          (case expect 0x2C r of
             Some r1 \<Rightarrow> parse_elements n r1 (acc @ [v])
           | None \<Rightarrow>
               (case expect 0x5D r of
                  Some r1 \<Rightarrow> Some (JArr (acc @ [v]), r1)
                | None \<Rightarrow> None)))"
| "parse_members 0 s acc = None"
| "parse_members (Suc n) s acc =
     (case expect 0x22 s of
        None \<Rightarrow> None
      | Some t \<Rightarrow>
          (case parse_chars t of
             None \<Rightarrow> None
           | Some (k, r) \<Rightarrow>
               (case expect 0x3A r of
                  None \<Rightarrow> None
                | Some r1 \<Rightarrow>
                    (case parse_value n r1 of
                       None \<Rightarrow> None
                     | Some (v, r2) \<Rightarrow>
                         (case expect 0x2C r2 of
                            Some r3 \<Rightarrow> parse_members n r3 (set_property acc k v)
                          | None \<Rightarrow>
                              (case expect 0x7D r2 of
                                 Some r3 \<Rightarrow> Some (JObj (set_property acc k v), r3)
                               | None \<Rightarrow> None))))))"

text \<open>\<^verbatim>\<open>JSON.parse(text)\<close>: one value, and nothing but white space after it.\<close>

definition JSON_parse :: "jsstring \<Rightarrow> json option" where
  "JSON_parse s =
     (case parse_value (Suc (length s)) s of
        None \<Rightarrow> None
      | Some (v, r) \<Rightarrow> if skip_ws r = [] then Some v else None)"

text \<open>
  A value of type \<open>json\<close> stands for a JavaScript value when no object in it has two
  properties of the same key. \<open>fuel_of\<close> counts the calls that reading a value back
  takes, and \<open>rest_ok\<close> says what may follow a number in a text: nothing, a comma, a
  line feed or a closing bracket or brace. \<open>number_start\<close> is the first code unit of a
  number.
\<close>

fun wf_json :: "json \<Rightarrow> bool" where
  "wf_json (JArr vs) = list_all wf_json vs"
| "wf_json (JObj kvs) = (distinct (map fst kvs) \<and> list_all (\<lambda>kv. wf_json (snd kv)) kvs)"
| "wf_json v = True"

fun fuel_of :: "json \<Rightarrow> nat" where
  "fuel_of (JArr vs) = sum_list (map fuel_of vs) + 2"
| "fuel_of (JObj kvs) = sum_list (map (\<lambda>kv. fuel_of (snd kv)) kvs) + 2"
| "fuel_of v = 1"

definition rest_ok :: "jsstring \<Rightarrow> bool" where
  "rest_ok r = (r = [] \<or> hd r = 0x2C \<or> hd r = 0x0A \<or> hd r = 0x5D \<or> hd r = 0x7D)"

definition number_start :: "16 word \<Rightarrow> bool" where
  "number_start c = (c = 0x2D \<or> is_digit c)"



section \<open>The echoing vendor\<close>

text \<open>
  The vendor of the \<^verbatim>\<open>createContact\<close> scenario: it reads the posted JSON body and answers
  200 with the same object and the property \<^verbatim>\<open>id\<close> set to \<^verbatim>\<open>"c1"\<close>; a request without a
  JSON body gets a 400. \<open>echo_backend\<close> is that vendor behind node-fetch, \<open>echo_axios\<close>
  behind axios, which sends the payload as JSON.stringify prints it, the properties
  that are \<^verbatim>\<open>undefined\<close> left out, and rejects on the 400. \<open>first_line\<close> is a text up to its
  first line feed.
\<close>

definition first_line :: "jsstring \<Rightarrow> jsstring" where
  "first_line t = takeWhile (\<lambda>c. c \<noteq> 0x0A) t"

definition with_id_c1 :: "json \<Rightarrow> json" where
  "with_id_c1 v =
     (case v of JObj kvs \<Rightarrow> JObj (set_property kvs (lit ''id'') (JStr (lit ''c1''))) | _ \<Rightarrow> v)"

definition bad_request :: response where
  "bad_request = json_response 400 (lit ''Bad Request'') (JObj [(lit ''message'', JStr (lit ''no JSON body''))])"

definition echo_backend :: fetch where
  "echo_backend req =
     (case req_body req of
        None \<Rightarrow> Inr bad_request
      | Some b \<Rightarrow>
          (case JSON_parse b of
             None \<Rightarrow> Inr bad_request
           | Some v \<Rightarrow> Inr (json_response 200 (lit ''OK'') (with_id_c1 v))))"

definition payload_json :: "(jsstring \<times> json option) list \<Rightarrow> json" where
  "payload_json payload =
     JObj (concat (map (\<lambda>(k, v). case v of None \<Rightarrow> [] | Some x \<Rightarrow> [(k, x)]) payload))"

definition status_400 :: thrown where
  "status_400 = JsError (lit ''Request failed with status code 400'')
     (Some (400, JObj [(lit ''message'', JStr (lit ''no JSON body''))]))"

definition echo_axios :: axios where
  "echo_axios req =
     (case ax_data req of
        None \<Rightarrow> Inl status_400
      | Some payload \<Rightarrow>
          (case JSON_parse (JSON_stringify (payload_json payload)) of
             None \<Rightarrow> Inl status_400
           | Some v \<Rightarrow> Inr (with_id_c1 v)))"

definition contact_a_b :: json where
  "contact_a_b = JObj [(lit ''email'', JStr (lit ''a@b.com''))]"

definition pretty_echo_c1 :: jsstring where
  "pretty_echo_c1 =
     lit ''{'' @ [0x0A]
     @ lit ''  '' @ [0x22] @ lit ''email'' @ [0x22] @ lit '': '' @ [0x22] @ lit ''a@b.com'' @ [0x22]
     @ lit '','' @ [0x0A]
     @ lit ''  '' @ [0x22] @ lit ''id'' @ [0x22] @ lit '': '' @ [0x22] @ lit ''c1'' @ [0x22] @ [0x0A]
     @ lit ''}''"

section \<open>Basic facts\<close>

lemma fst_try_catch: "fst (try_catch b h) = Inr (case fst b of Inl e \<Rightarrow> h e | Inr r \<Rightarrow> r)"
  by (simp add: try_catch_def split: sum.splits)

lemma snd_try_catch: "snd (try_catch b h) = snd b"
  by (simp add: try_catch_def split: sum.splits)

lemma error_envelope_facts:
  "well_formed (error_envelope t)" "isError (error_envelope t) = Some True"
  by (simp_all add: well_formed_def error_envelope_def)


lemma ghl_try_fst:
  "fst (ghl_try fetch i) =
     (case fetch (ghl_request i) of
        Inl e \<Rightarrow> Inl e
      | Inr r \<Rightarrow>
          (case response_json r of
             Inl e \<Rightarrow> Inl e
           | Inr d \<Rightarrow>
               if \<not> ok r then
                 (case get_prop d (lit ''message'') of
                    Inl e \<Rightarrow> Inl e
                  | Inr m \<Rightarrow>
                      (case ToString_opt (if truthy m then m else Some (JStr (statusText r))) of
                         Inl e \<Rightarrow> Inl e
                       | Inr s \<Rightarrow> Inl (JsError (lit ''GoHighLevel API error: '' @ s) None)))
               else Inr (success_envelope (Some (JSON_stringify2 d)))))"
  by (simp add: ghl_try_def ghl_request_def ghlRequest_def split: prod.splits sum.splits)

lemma ghl_try_snd: "snd (ghl_try fetch i) = [ghl_request i]"
  by (simp add: ghl_try_def ghl_request_def ghlRequest_def split: prod.splits sum.splits)

lemma fetch_and_report_snd: "snd (fetch_and_report l f req) = [req]"
  by (simp add: fetch_and_report_def)

lemma keap_try_snd:
  "snd (keap_try fetch i) = (case keap_request i of Inl e \<Rightarrow> [] | Inr req \<Rightarrow> [req])"
  by (simp add: keap_try_def fetch_and_report_snd split: sum.splits)

lemma hubspot_try_snd:
  "snd (hubspot_try fetch i) = (case hubspot_request i of Inl e \<Rightarrow> [] | Inr req \<Rightarrow> [req])"
  by (simp add: hubspot_try_def fetch_and_report_snd split: sum.splits)

lemma freshworks_try_snd: "snd (freshworks_try axios i) = [freshworks_request i]"
  by (simp add: freshworks_try_def)

lemma pipedrive_try_snd: "snd (pipedrive_try sdk i) = [pipedrive_request i]"
  by (simp add: pipedrive_try_def)

lemma encodeURIComponent_Inl: "encodeURIComponent s = Inl e \<Longrightarrow> e = URIError"
  by (induction s rule: encodeURIComponent.induct)
     (auto split: if_splits list.splits sum.splits simp: map_sum_def)

lemma sequence_join_Inl: "sequence_join s rs = Inl e \<Longrightarrow> Inl e \<in> set rs"
  by (induction s rs rule: sequence_join.induct) (auto split: sum.splits)

lemma propertiesQuery_Inl:
  "propertiesQuery ps = Inl e \<Longrightarrow> e = URIError \<and> (\<exists>p \<in> set ps. encodeURIComponent p = Inl URIError)"
proof -
  assume "propertiesQuery ps = Inl e"
  then have "Inl e \<in> set (map (\<lambda>p. map_sum id ((@) (lit ''properties='')) (encodeURIComponent p)) ps)"
    unfolding propertiesQuery_def by (rule sequence_join_Inl)
  then obtain p where p: "p \<in> set ps" "encodeURIComponent p = Inl e"
    by (auto simp: map_sum_def split: sum.splits)
  with encodeURIComponent_Inl [of p e] show ?thesis by auto
qed

lemma keap_request_Inl:
  "keap_request ki = Inl e \<Longrightarrow>
     e = URIError \<and> (\<exists>k q l f. ki = KeapSearchContacts k q l f \<and> encodeURIComponent q = Inl URIError)"
  by (cases ki)
     (auto simp: keap_search_query_def keap_searchParam_def map_sum_def
           split: sum.splits if_splits dest: encodeURIComponent_Inl)

lemma hubspot_request_Inl:
  "hubspot_request hi = Inl e \<Longrightarrow>
     e = URIError \<and>
     (\<exists>k c l ps. (hi = HubspotListContacts k l ps \<or> hi = HubspotGetContact k c ps)
          \<and> (\<exists>p \<in> set (z_default hubspot_contact_properties ps). encodeURIComponent p = Inl URIError)
        \<or> hi = HubspotListDeals k l ps
          \<and> (\<exists>p \<in> set (z_default hubspot_deal_properties ps). encodeURIComponent p = Inl URIError))"
  by (cases hi) (auto simp: map_sum_def split: sum.splits dest!: propertiesQuery_Inl)








lemma quote_unit_plain: "plain_unit c \<Longrightarrow> quote_unit c = [c]"
  by (auto simp: plain_unit_def quote_unit_def is_high_surrogate_def is_low_surrogate_def Let_def)

lemma quote_units_plain: "\<forall>c \<in> set s. plain_unit c \<Longrightarrow> quote_units s = s"
  by (induction s rule: quote_units.induct)
     (auto simp: quote_unit_plain plain_unit_def is_high_surrogate_def)

lemma Quote_plain: "\<forall>c \<in> set s. plain_unit c \<Longrightarrow> QuoteJSONString s = 0x22 # s @ [0x22]"
  by (simp add: QuoteJSONString_def quote_units_plain)

lemma plain_lits:
  "\<forall>c \<in> set (lit ''id''). plain_unit c"
  "\<forall>c \<in> set (lit ''message''). plain_unit c"
  "\<forall>c \<in> set (lit ''not found''). plain_unit c"
  by (simp_all add: lit_def plain_unit_def)

lemma stringify2_id_42: "JSON_stringify2 body_id_42 = pretty_id_42"
  by (simp add: JSON_stringify2_def body_id_42_def pretty_id_42_def Quote_plain plain_lits
        gap_sep_def colon_def number_toString_def)
     (simp add: lit_def digits.simps numeral_2_eq_2)



lemma freshworks_prefix_id_42: "\<exists>p. freshworks_prefix fi body_id_42 = Inr p"
  by (cases fi) (simp_all add: created_line_def get_prop_def body_id_42_def ToString_opt_def)

lemma freshworks_prefix_get:
  "ax_method (freshworks_request fi) = lit ''get'' \<Longrightarrow> freshworks_prefix fi d = Inr []"
  by (cases fi) (simp_all add: client_post_def client_put_def lit_def)

lemma created_line_id_42:
  "created_line (lit ''Ticket'') body_id_42
     = Inr (lit ''Ticket created successfully with ID: 42'' @ [0x0A, 0x0A])"
  by (simp add: created_line_def get_prop_def body_id_42_def ToString_opt_def number_toString_def
        digits.simps lit_def)

lemma unat_digit: "d < 10 \<Longrightarrow> unat (of_nat (48 + d) :: 16 word) = 48 + d"
  by (subst unat_of_nat) simp

lemma unat_digit': "d < 10 \<Longrightarrow> unat (48 + of_nat d :: 16 word) = 48 + d"
  using unat_digit [of d] by simp

lemma digits_are_digits: "u \<in> set (digits n) \<Longrightarrow> 0x30 \<le> unat u \<and> unat u \<le> 0x39"
proof (induction n rule: digits.induct)
  case (1 n)
  show ?case
  proof (cases "n < 10")
    case True
    with "1.prems" have "u = of_nat (48 + n)" by (simp add: digits.simps)
    with True show ?thesis by (simp add: unat_digit')
  next
    case False
    with "1.prems" consider "u \<in> set (digits (n div 10))" | "u = of_nat (48 + n mod 10)"
      by (auto simp: digits.simps [of n])
    then show ?thesis
    proof cases
      case 1
      with False "1.IH" show ?thesis by blast
    next
      case 2
      moreover have "n mod 10 < 10" by simp
      ultimately show ?thesis using unat_digit' [of "n mod 10"] by simp
    qed
  qed
qed

lemma digits_nonempty: "digits n \<noteq> []"
  by (subst digits.simps) simp

lemma decimal_value_digits: "decimal_value (digits n) = n"
proof (induction n rule: digits.induct)
  case (1 n)
  show ?case
  proof (cases "n < 10")
    case True
    then show ?thesis by (simp add: digits.simps decimal_value_def unat_digit')
  next
    case False
    have m: "n mod 10 < 10" by simp
    from False "1.IH" have "decimal_value (digits (n div 10)) = n div 10" by simp
    with False show ?thesis
      using unat_digit' [OF m]
      by (simp add: digits.simps [of n] decimal_value_def)
  qed
qed

lemma number_toString_unescaped:
  "u \<in> set (number_toString i) \<Longrightarrow> uri_unescaped (unat u) \<and> form_unescaped (unat u)"
  by (auto simp: number_toString_def uri_unescaped_def form_unescaped_def is_alnum_def
        dest!: digits_are_digits split: if_splits)

lemma encodeURIComponent_unescaped:
  "\<forall>u \<in> set s. uri_unescaped (unat u) \<Longrightarrow> encodeURIComponent s = Inr s"
  by (induction s) (simp_all add: map_sum_def)


lemma length_percent_encode: "3 \<le> length (percent_encode cp)"
  by (simp add: percent_encode_def utf8_def percent_octet_def)

lemma encodeURIComponent_length:
  "encodeURIComponent s = Inr t \<Longrightarrow>
     length s \<le> length t \<and> ((\<exists>u \<in> set s. \<not> uri_unescaped (unat u)) \<longrightarrow> length s < length t)"
proof (induction s arbitrary: t rule: encodeURIComponent.induct)
  case 1
  then show ?case by simp
next
  case (2 c s)
  show ?case
  proof (cases "uri_unescaped (unat c)")
    case True
    with "2.prems" obtain t' where t': "encodeURIComponent s = Inr t'" "t = c # t'"
      by (cases "encodeURIComponent s") (auto simp: map_sum_def)
    with True "2.IH"(1) [of t'] show ?thesis by auto
  next
    case esc: False
    show ?thesis
    proof (cases "is_high_surrogate c")
      case True
      with esc "2.prems" obtain d r where s: "s = d # r" "is_low_surrogate d"
        by (cases s) (auto split: if_splits)
      with esc True "2.prems" obtain t' where t': "encodeURIComponent r = Inr t'"
          "t = percent_encode (pair_code_point c d) @ t'"
        by (cases "encodeURIComponent r") (auto simp: map_sum_def)
      from "2.IH"(2) [OF esc True s(1) s(2) t'(1)] have "length r \<le> length t'" by simp
      with s t' length_percent_encode [of "pair_code_point c d"] show ?thesis by simp
    next
      case False
      with esc "2.prems" have nl: "\<not> is_low_surrogate c" by (auto split: if_splits)
      with esc False "2.prems" obtain t' where t': "encodeURIComponent s = Inr t'"
          "t = percent_encode (unat c) @ t'"
        by (cases "encodeURIComponent s") (auto simp: map_sum_def)
      from "2.IH"(3) [OF esc False nl t'(1)] have "length s \<le> length t'" by simp
      with t' length_percent_encode [of "unat c"] show ?thesis by simp
    qed
  qed
qed

lemma encodeURIComponent_fixed_iff:
  "encodeURIComponent s = Inr s \<longleftrightarrow> (\<forall>u \<in> set s. uri_unescaped (unat u))"
  using encodeURIComponent_length [of s s] encodeURIComponent_unescaped [of s] by auto

lemma number_toString_units:
  "u \<in> set (number_toString n) \<Longrightarrow> unat u = 0x2D \<or> (0x30 \<le> unat u \<and> unat u \<le> 0x39)"
  by (auto simp: number_toString_def dest!: digits_are_digits split: if_splits)










lemma number_lits:
  "number_toString 1 = lit ''1''" "number_toString 2 = lit ''2''" "number_toString 20 = lit ''20''"
  "number_toString 10 = lit ''10''"
  by (simp_all add: number_toString_def digits.simps lit_def)

lemma split_on_nonempty: "split_on c s \<noteq> []"
  by (induction s) simp_all

lemma split_on_none: "c \<notin> set s \<Longrightarrow> split_on c s = [s]"
  by (induction s) auto

lemma split_on_append: "c \<notin> set a \<Longrightarrow> split_on c (a @ c # b) = a # split_on c b"
  by (induction a) auto

lemma key_value_eq: "0x3D \<notin> set k \<Longrightarrow> key_value (k @ 0x3D # v) = (k, v)"
  by (simp add: key_value_def takeWhile_append dropWhile_append)

lemma set_array_join: "set (array_join s xs) \<subseteq> set s \<union> \<Union> (set ` set xs)"
  by (induction s xs rule: array_join.induct) auto

lemma upper_hex_digit_range:
  "d < 16 \<Longrightarrow> (0x30 \<le> unat (upper_hex_digit d) \<and> unat (upper_hex_digit d) \<le> 0x39)
     \<or> (0x41 \<le> unat (upper_hex_digit d) \<and> unat (upper_hex_digit d) \<le> 0x46)"
proof -
  assume d: "d < 16"
  show ?thesis
  proof (cases "d < 10")
    case True
    then have "unat (of_nat (48 + d) :: 16 word) = 48 + d" by (subst unat_of_nat) simp
    with True show ?thesis by (simp add: upper_hex_digit_def)
  next
    case False
    with d have "unat (of_nat (55 + d) :: 16 word) = 55 + d" by (subst unat_of_nat) simp
    with False d show ?thesis by (simp add: upper_hex_digit_def)
  qed
qed

lemma utf8_octets: "n < 0x110000 \<Longrightarrow> b \<in> set (utf8 n) \<Longrightarrow> b < 256"
proof -
  assume n: "n < 0x110000" and b: "b \<in> set (utf8 n)"
  have a: "n mod 64 < 64" "n div 64 mod 64 < 64" "n div 4096 mod 64 < 64" by simp_all
  have c: "n < 0x800 \<Longrightarrow> n div 64 < 32" "n < 0x10000 \<Longrightarrow> n div 4096 < 16" "n div 262144 < 5"
    using n by (simp_all add: less_mult_imp_div_less)
  from b consider "n < 0x80" "b = n"
    | "\<not> n < 0x80" "n < 0x800" "b = 0xC0 + n div 64 \<or> b = 0x80 + n mod 64"
    | "\<not> n < 0x800" "n < 0x10000"
      "b = 0xE0 + n div 4096 \<or> b = 0x80 + n div 64 mod 64 \<or> b = 0x80 + n mod 64"
    | "\<not> n < 0x10000"
      "b = 0xF0 + n div 262144 \<or> b = 0x80 + n div 4096 mod 64 \<or> b = 0x80 + n div 64 mod 64
         \<or> b = 0x80 + n mod 64"
    by (auto simp: utf8_def split: if_splits)
  then show ?thesis
  proof cases
    case 1 then show ?thesis by simp
  next
    case 2 with a c(1) show ?thesis by auto
  next
    case 3 with a c(2) show ?thesis by auto
  next
    case 4 with a c(3) show ?thesis by auto
  qed
qed

lemma upper_hex_digit_alnum: "d < 16 \<Longrightarrow> is_alnum (unat (upper_hex_digit d))"
  using upper_hex_digit_range [of d] unfolding is_alnum_def by linarith

lemma percent_octet_units: "b < 256 \<Longrightarrow> u \<in> set (percent_octet b) \<Longrightarrow> encoded_unit u"
proof -
  assume b: "b < 256" and u: "u \<in> set (percent_octet b)"
  from b have h1: "b div 16 < 16" by (simp add: less_mult_imp_div_less)
  have h2: "b mod 16 < 16" by simp
  from u have "u = 0x25 \<or> u = upper_hex_digit (b div 16) \<or> u = upper_hex_digit (b mod 16)"
    by (simp add: percent_octet_def)
  then consider "u = 0x25" | "u = upper_hex_digit (b div 16)" | "u = upper_hex_digit (b mod 16)"
    by blast
  then show ?thesis
  proof cases
    case 1 then show ?thesis by (simp add: encoded_unit_def)
  next
    case 2
    with upper_hex_digit_alnum [OF h1] show ?thesis
      by (simp add: encoded_unit_def uri_unescaped_def)
  next
    case 3
    with upper_hex_digit_alnum [OF h2] show ?thesis
      by (simp add: encoded_unit_def uri_unescaped_def)
  qed
qed

lemma percent_encode_units: "n < 0x110000 \<Longrightarrow> u \<in> set (percent_encode n) \<Longrightarrow> encoded_unit u"
proof -
  assume n: "n < 0x110000" and u: "u \<in> set (percent_encode n)"
  then obtain b where b: "b \<in> set (utf8 n)" "u \<in> set (percent_octet b)"
    by (auto simp: percent_encode_def)
  from utf8_octets [OF n b(1)] b(2) show ?thesis by (rule percent_octet_units)
qed

lemma pair_code_point_bound:
  "is_high_surrogate c \<Longrightarrow> is_low_surrogate d \<Longrightarrow> pair_code_point c d < 0x110000"
  unfolding is_high_surrogate_def is_low_surrogate_def pair_code_point_def by arith

lemma unat_16_bound: "unat (c :: 16 word) < 0x110000"
  using unsigned_less [of c, where 'a = nat] by simp

lemma encodeURIComponent_units:
  "encodeURIComponent s = Inr t \<Longrightarrow> u \<in> set t \<Longrightarrow> encoded_unit u"
proof (induction s arbitrary: t rule: encodeURIComponent.induct)
  case 1
  then show ?case by simp
next
  case (2 c s)
  show ?case
  proof (cases "uri_unescaped (unat c)")
    case True
    with "2.prems" obtain t' where t': "encodeURIComponent s = Inr t'" "t = c # t'"
      by (cases "encodeURIComponent s") (auto simp: map_sum_def)
    with True "2.IH"(1) [of t'] "2.prems"(2) show ?thesis by (auto simp: encoded_unit_def)
  next
    case esc: False
    show ?thesis
    proof (cases "is_high_surrogate c")
      case True
      with esc "2.prems" obtain d r where s: "s = d # r" "is_low_surrogate d"
        by (cases s) (auto split: if_splits)
      with esc True "2.prems" obtain t' where t': "encodeURIComponent r = Inr t'"
          "t = percent_encode (pair_code_point c d) @ t'"
        by (cases "encodeURIComponent r") (auto simp: map_sum_def)
      from "2.prems"(2) t' consider "u \<in> set (percent_encode (pair_code_point c d))" | "u \<in> set t'"
        by auto
      then show ?thesis
      proof cases
        case 1
        with pair_code_point_bound [OF True s(2)] show ?thesis by (rule percent_encode_units)
      next
        case 2
        with "2.IH"(2) [OF esc True s(1) s(2) t'(1)] show ?thesis by simp
      qed
    next
      case False
      with esc "2.prems" have nl: "\<not> is_low_surrogate c" by (auto split: if_splits)
      with esc False "2.prems" obtain t' where t': "encodeURIComponent s = Inr t'"
          "t = percent_encode (unat c) @ t'"
        by (cases "encodeURIComponent s") (auto simp: map_sum_def)
      from "2.prems"(2) t' consider "u \<in> set (percent_encode (unat c))" | "u \<in> set t'"
        by auto
      then show ?thesis
      proof cases
        case 1
        with unat_16_bound [of c] show ?thesis by (rule percent_encode_units)
      next
        case 2
        with "2.IH"(3) [OF esc False nl t'(1)] show ?thesis by simp
      qed
    qed
  qed
qed

lemma encoded_unit_not_sep: "encoded_unit u \<Longrightarrow> u \<noteq> 0x26 \<and> u \<noteq> 0x3D"
  by (auto simp: encoded_unit_def uri_unescaped_def is_alnum_def)

lemma includes_at: "String_includes s [c] \<longleftrightarrow> c \<in> set s"
  by (induction s) auto

lemma number_toString_no_sep: "u \<in> set (number_toString n) \<Longrightarrow> u \<noteq> 0x26 \<and> u \<noteq> 0x3D"
  by (drule number_toString_units) auto

lemma lit_no_sep:
  "0x26 \<notin> set (lit ''email'')" "0x3D \<notin> set (lit ''email'')"
  "0x26 \<notin> set (lit ''given_name'')" "0x3D \<notin> set (lit ''given_name'')"
  "0x3D \<notin> set (lit ''limit'')" "0x3D \<notin> set (lit ''fields'')"
  by (simp_all add: lit_def)

lemma query_pairs_cons:
  assumes "0x26 \<notin> set k" "0x3D \<notin> set k" "0x26 \<notin> set v"
  shows "query_pairs (k @ 0x3D # v @ 0x26 # rest) = (k, v) # query_pairs rest"
proof -
  have s: "0x26 \<notin> set (k @ 0x3D # v)" using assms by simp
  have "split_on 0x26 ((k @ 0x3D # v) @ 0x26 # rest) = (k @ 0x3D # v) # split_on 0x26 rest"
    by (rule split_on_append [OF s])
  then have "split_on 0x26 (k @ 0x3D # v @ 0x26 # rest) = (k @ 0x3D # v) # split_on 0x26 rest"
    by simp
  with key_value_eq [OF assms(2), of v] show ?thesis
    by (simp only: query_pairs_def list.map)
qed

lemma query_pairs_last:
  assumes "0x26 \<notin> set k" "0x3D \<notin> set k" "0x26 \<notin> set v"
  shows "query_pairs (k @ 0x3D # v) = [(k, v)]"
proof -
  have s: "0x26 \<notin> set (k @ 0x3D # v)" using assms by simp
  from split_on_none [OF s] key_value_eq [OF assms(2), of v] show ?thesis
    by (simp only: query_pairs_def list.map)
qed

lemma query_pairs_three:
  assumes "0x26 \<notin> set k1" "0x3D \<notin> set k1" "0x26 \<notin> set v1"
    and "0x26 \<notin> set v2" and "0x26 \<notin> set v3"
  shows "query_pairs (k1 @ [0x3D] @ v1 @ lit ''&limit='' @ v2 @ lit ''&fields='' @ v3)
     = [(k1, v1), (lit ''limit'', v2), (lit ''fields'', v3)]"
proof -
  have e: "lit ''&limit='' = 0x26 # lit ''limit'' @ [0x3D]" "lit ''&fields='' = 0x26 # lit ''fields'' @ [0x3D]"
    by (simp_all add: lit_def)
  have s1: "0x26 \<notin> set (k1 @ [0x3D] @ v1)" using assms by simp
  have s2: "0x26 \<notin> set (lit ''limit'' @ [0x3D] @ v2)" using assms by (simp add: lit_def)
  have s3: "0x26 \<notin> set (lit ''fields'' @ [0x3D] @ v3)" using assms by (simp add: lit_def)
  let ?A = "k1 @ [0x3D] @ v1" and ?B = "lit ''limit'' @ [0x3D] @ v2"
    and ?C = "lit ''fields'' @ [0x3D] @ v3"
  have a: "k1 @ [0x3D] @ v1 @ lit ''&limit='' @ v2 @ lit ''&fields='' @ v3
      = ?A @ 0x26 # (?B @ 0x26 # ?C)"
    by (simp add: e)
  have p1: "split_on 0x26 (?A @ 0x26 # (?B @ 0x26 # ?C)) = ?A # split_on 0x26 (?B @ 0x26 # ?C)"
    by (rule split_on_append [OF s1])
  have p2: "split_on 0x26 (?B @ 0x26 # ?C) = ?B # split_on 0x26 ?C"
    by (rule split_on_append [OF s2])
  have p3: "split_on 0x26 ?C = [?C]"
    by (rule split_on_none [OF s3])
  have "split_on 0x26 (k1 @ [0x3D] @ v1 @ lit ''&limit='' @ v2 @ lit ''&fields='' @ v3)
      = [?A, ?B, ?C]"
    by (simp only: a p1 p2 p3)
  moreover have "key_value (k1 @ [0x3D] @ v1) = (k1, v1)"
    using key_value_eq [of k1 v1] assms by simp
  moreover have "key_value (lit ''limit'' @ [0x3D] @ v2) = (lit ''limit'', v2)"
    using key_value_eq [of "lit ''limit''" v2] lit_no_sep by simp
  moreover have "key_value (lit ''fields'' @ [0x3D] @ v3) = (lit ''fields'', v3)"
    using key_value_eq [of "lit ''fields''" v3] lit_no_sep by simp
  ultimately show ?thesis by (simp add: query_pairs_def)
qed

lemma encode_slash: "encodeURIComponent (lit ''a/b'') = Inr (lit ''a%2Fb'')"
  by (simp add: lit_def uri_unescaped_def is_alnum_def is_high_surrogate_def is_low_surrogate_def
        percent_encode_def utf8_def percent_octet_def upper_hex_digit_def)

lemma encode_at: "encodeURIComponent (lit ''a@b.c'') = Inr (lit ''a%40b.c'')"
  by (simp add: lit_def uri_unescaped_def is_alnum_def is_high_surrogate_def is_low_surrogate_def
        percent_encode_def utf8_def percent_octet_def upper_hex_digit_def)

lemma encode_bob: "encodeURIComponent (lit ''bob'') = Inr (lit ''bob'')"
  by (rule encodeURIComponent_unescaped) (simp add: lit_def uri_unescaped_def is_alnum_def)

lemma encode_exponent: "encodeURIComponent (lit ''1e+21'') = Inr (lit ''1e%2B21'')"
  by (simp add: lit_def uri_unescaped_def is_alnum_def is_high_surrogate_def is_low_surrogate_def
        percent_encode_def utf8_def percent_octet_def upper_hex_digit_def)


section \<open>Reading back what JSON.stringify prints\<close>

lemma skip_ws_gap_sep: "skip_ws (gap_sep g d @ s) = skip_ws s"
  by (simp add: skip_ws_def gap_sep_def dropWhile_append is_ws_def)

lemma skip_ws_start: "\<not> is_ws c \<Longrightarrow> skip_ws (c # s) = c # s"
  by (simp add: skip_ws_def)

lemma expect_gap_sep: "expect x (gap_sep g d @ s) = expect x s"
  by (simp add: expect_def skip_ws_gap_sep)

lemma expect_start: "\<not> is_ws c \<Longrightarrow> expect x (c # s) = (if c = x then Some s else None)"
  by (simp add: expect_def skip_ws_start)

lemma unat_hex_digit: "d < 16 \<Longrightarrow> unat (hex_digit d) = (if d < 10 then 48 + d else 87 + d)"
proof -
  assume d: "d < 16"
  have a: "unat (of_nat (48 + d) :: 16 word) = 48 + d" using d by (subst unat_of_nat) simp
  have b: "unat (of_nat (87 + d) :: 16 word) = 87 + d" using d by (subst unat_of_nat) simp
  show ?thesis using a b by (simp add: hex_digit_def del: of_nat_add)
qed

lemma hex_value_hex_digit: "d < 16 \<Longrightarrow> hex_value (hex_digit d) = Some d"
  by (simp add: hex_value_def unat_hex_digit Let_def)

lemma hex_digit_not_u: "d < 16 \<Longrightarrow> hex_digit d \<noteq> 0x75"
proof
  assume d: "d < 16" and "hex_digit d = 0x75"
  then have "unat (hex_digit d) = 0x75" by simp
  with d show False by (simp add: unat_hex_digit split: if_splits)
qed

lemma hex_recompose:
  "4096 * (n div 4096) + 256 * (n div 256 mod 16) + 16 * (n div 16 mod 16) + n mod 16 = (n::nat)"
proof -
  have a: "n div 16 div 16 = n div 256" by (simp add: div_mult2_eq)
  have b: "n div 256 div 16 = n div 4096" by (simp add: div_mult2_eq)
  have 1: "16 * (n div 16) + n mod 16 = n" by (rule mult_div_mod_eq)
  have 2: "16 * (n div 16 div 16) + n div 16 mod 16 = n div 16" by (rule mult_div_mod_eq)
  have 3: "16 * (n div 256 div 16) + n div 256 mod 16 = n div 256" by (rule mult_div_mod_eq)
  from 1 2 3 show ?thesis unfolding a b by linarith
qed

lemma parse_escape_unicode:
  "parse_escape (tl (unicode_escape c) @ r) = Some (c, 5)"
proof -
  let ?n = "unat c"
  have n: "?n < 65536" using unsigned_less [of c, where 'a = nat] by simp
  have h: "?n div 4096 < 16" "?n div 256 mod 16 < 16" "?n div 16 mod 16 < 16" "?n mod 16 < 16"
    using n by (simp_all add: less_mult_imp_div_less)
  have "of_nat (4096 * (?n div 4096) + 256 * (?n div 256 mod 16) + 16 * (?n div 16 mod 16) + ?n mod 16)
      = (of_nat ?n :: 16 word)"
    using hex_recompose [of ?n] by simp
  then have r: "of_nat (4096 * (?n div 4096) + 256 * (?n div 256 mod 16) + 16 * (?n div 16 mod 16) + ?n mod 16)
      = c" by simp
  show ?thesis
    using r by (simp add: unicode_escape_def Let_def hex_value_hex_digit h del: of_nat_add of_nat_mult)
qed

lemma parse_chars_unicode:
  "parse_chars (unicode_escape c @ r) = map_option (apfst ((#) c)) (parse_chars r)"
proof -
  have e: "unicode_escape c @ r = 0x5C # (tl (unicode_escape c) @ r)"
    by (simp add: unicode_escape_def Let_def)
  have d: "drop 5 (tl (unicode_escape c) @ r) = r"
    by (simp add: unicode_escape_def Let_def)
  show ?thesis
    by (subst e) (simp add: parse_escape_unicode d del: parse_escape.simps drop_append)
qed

lemma unat_eq_numeral: "unat (c :: 16 word) = unat (k :: 16 word) \<Longrightarrow> c = k"
  by (simp add: word_unat_eq_iff)

lemma parse_chars_short_escape:
  "simple_escape e = Some x \<Longrightarrow> e \<noteq> 0x75 \<Longrightarrow>
     parse_chars ([0x5C, e] @ r) = map_option (apfst ((#) x)) (parse_chars r)"
  by simp

lemma parse_chars_plain:
  "c \<noteq> 0x22 \<Longrightarrow> c \<noteq> 0x5C \<Longrightarrow> \<not> unat c < 0x20 \<Longrightarrow>
     parse_chars (c # r) = map_option (apfst ((#) c)) (parse_chars r)"
  by simp

lemma parse_chars_quote_unit:
  "parse_chars (quote_unit c @ r) = map_option (apfst ((#) c)) (parse_chars r)"
proof -
  consider "unat c = 0x08" | "unat c = 0x09" | "unat c = 0x0A" | "unat c = 0x0C" | "unat c = 0x0D"
    | "unat c = 0x22" | "unat c = 0x5C"
    | "unat c \<notin> {0x08, 0x09, 0x0A, 0x0C, 0x0D, 0x22, 0x5C}"
      "unat c < 0x20 \<or> is_high_surrogate c \<or> is_low_surrogate c"
    | "unat c \<notin> {0x08, 0x09, 0x0A, 0x0C, 0x0D, 0x22, 0x5C}"
      "\<not> (unat c < 0x20 \<or> is_high_surrogate c \<or> is_low_surrogate c)"
    by blast
  then show ?thesis
  proof cases
    case 1
    then have c: "c = 0x08" by (intro unat_eq_numeral) simp
    have "quote_unit c = [0x5C, 0x62]" by (simp add: c quote_unit_def)
    moreover have "simple_escape 0x62 = Some c" by (simp add: c simple_escape_def)
    ultimately show ?thesis using parse_chars_short_escape [of "0x62" c r] by simp
  next
    case 2
    then have c: "c = 0x09" by (intro unat_eq_numeral) simp
    have "quote_unit c = [0x5C, 0x74]" by (simp add: c quote_unit_def)
    moreover have "simple_escape 0x74 = Some c" by (simp add: c simple_escape_def)
    ultimately show ?thesis using parse_chars_short_escape [of "0x74" c r] by simp
  next
    case 3
    then have c: "c = 0x0A" by (intro unat_eq_numeral) simp
    have "quote_unit c = [0x5C, 0x6E]" by (simp add: c quote_unit_def)
    moreover have "simple_escape 0x6E = Some c" by (simp add: c simple_escape_def)
    ultimately show ?thesis using parse_chars_short_escape [of "0x6E" c r] by simp
  next
    case 4
    then have c: "c = 0x0C" by (intro unat_eq_numeral) simp
    have "quote_unit c = [0x5C, 0x66]" by (simp add: c quote_unit_def)
    moreover have "simple_escape 0x66 = Some c" by (simp add: c simple_escape_def)
    ultimately show ?thesis using parse_chars_short_escape [of "0x66" c r] by simp
  next
    case 5
    then have c: "c = 0x0D" by (intro unat_eq_numeral) simp
    have "quote_unit c = [0x5C, 0x72]" by (simp add: c quote_unit_def)
    moreover have "simple_escape 0x72 = Some c" by (simp add: c simple_escape_def)
    ultimately show ?thesis using parse_chars_short_escape [of "0x72" c r] by simp
  next
    case 6
    then have c: "c = 0x22" by (intro unat_eq_numeral) simp
    have "quote_unit c = [0x5C, 0x22]" by (simp add: c quote_unit_def)
    moreover have "simple_escape 0x22 = Some c" by (simp add: c simple_escape_def)
    ultimately show ?thesis using parse_chars_short_escape [of "0x22" c r] by simp
  next
    case 7
    then have c: "c = 0x5C" by (intro unat_eq_numeral) simp
    have "quote_unit c = [0x5C, 0x5C]" by (simp add: c quote_unit_def)
    moreover have "simple_escape 0x5C = Some c" by (simp add: c simple_escape_def)
    ultimately show ?thesis using parse_chars_short_escape [of "0x5C" c r] by simp
  next
    case 8
    then have "quote_unit c = unicode_escape c" by (auto simp: quote_unit_def Let_def)
    then show ?thesis by (simp only: parse_chars_unicode)
  next
    case 9
    then have q: "quote_unit c = [c]" by (auto simp: quote_unit_def Let_def)
    from 9 have "c \<noteq> 0x22" "c \<noteq> 0x5C" "\<not> unat c < 0x20" by auto
    from parse_chars_plain [OF this] q show ?thesis by simp
  qed
qed

lemma surrogate_plain:
  "is_high_surrogate c \<or> is_low_surrogate c \<Longrightarrow> c \<noteq> 0x22 \<and> c \<noteq> 0x5C \<and> \<not> unat c < 0x20"
  by (auto simp: is_high_surrogate_def is_low_surrogate_def)

lemma parse_chars_quote_units:
  "parse_chars (quote_units s @ 0x22 # rest) = Some (s, rest)"
proof (induction s rule: quote_units.induct)
  case 1
  then show ?case by simp
next
  case (2 c)
  have "parse_chars (quote_unit c @ 0x22 # rest) = map_option (apfst ((#) c)) (parse_chars (0x22 # rest))"
    by (rule parse_chars_quote_unit)
  then show ?case by simp
next
  case (3 c d s)
  show ?case
  proof (cases "is_high_surrogate c \<and> is_low_surrogate d")
    case True
    then have q: "quote_units (c # d # s) = c # d # quote_units s" by simp
    from True "3.IH"(1) have ih: "parse_chars (quote_units s @ 0x22 # rest) = Some (s, rest)" by simp
    from True surrogate_plain [of c] have pc: "c \<noteq> 0x22" "c \<noteq> 0x5C" "\<not> unat c < 0x20" by auto
    from True surrogate_plain [of d] have pd: "d \<noteq> 0x22" "d \<noteq> 0x5C" "\<not> unat d < 0x20" by auto
    have "parse_chars (c # d # quote_units s @ 0x22 # rest)
        = map_option (apfst ((#) c)) (parse_chars (d # quote_units s @ 0x22 # rest))"
      by (rule parse_chars_plain [OF pc])
    also have "parse_chars (d # quote_units s @ 0x22 # rest)
        = map_option (apfst ((#) d)) (parse_chars (quote_units s @ 0x22 # rest))"
      by (rule parse_chars_plain [OF pd])
    finally show ?thesis by (simp only: q ih append_Cons option.map apfst_conv)
  next
    case False
    then have q: "quote_units (c # d # s) = quote_unit c @ quote_units (d # s)" by auto
    from False "3.IH"(2) have ih: "parse_chars (quote_units (d # s) @ 0x22 # rest) = Some (d # s, rest)"
      by simp
    have "parse_chars ((quote_unit c @ quote_units (d # s)) @ 0x22 # rest)
        = map_option (apfst ((#) c)) (parse_chars (quote_units (d # s) @ 0x22 # rest))"
      using parse_chars_quote_unit [of c "quote_units (d # s) @ 0x22 # rest"]
      by (simp only: append_assoc)
    then show ?thesis by (simp only: q ih option.map apfst_conv)
  qed
qed

lemma parse_chars_Quote:
  "parse_chars (tl (QuoteJSONString s) @ rest) = Some (s, rest)"
  by (simp add: QuoteJSONString_def parse_chars_quote_units del: parse_chars.simps)

lemma is_digit_digits: "u \<in> set (digits n) \<Longrightarrow> is_digit u"
  using digits_are_digits [of u n] by (simp add: is_digit_def)

lemma rest_ok_not_digit: "rest_ok r \<Longrightarrow> r = [] \<or> \<not> is_digit (hd r)"
  by (auto simp: rest_ok_def is_digit_def)

lemma takeWhile_digits: "rest_ok r \<Longrightarrow> takeWhile is_digit (digits n @ r) = digits n"
  using rest_ok_not_digit [of r] is_digit_digits [of _ n]
  by (cases r) (auto simp: takeWhile_append)

lemma dropWhile_digits: "rest_ok r \<Longrightarrow> dropWhile is_digit (digits n @ r) = r"
  using rest_ok_not_digit [of r] is_digit_digits [of _ n]
  by (cases r) (auto simp: dropWhile_append)

lemma hd_digits_positive: "0 < n \<Longrightarrow> hd (digits n) \<noteq> 0x30"
proof (induction n rule: digits.induct)
  case (1 n)
  show ?case
  proof (cases "n < 10")
    case True
    with "1.prems" have "unat (hd (digits n)) = 48 + n" by (simp add: digits.simps unat_digit')
    with "1.prems" show ?thesis by auto
  next
    case False
    then have "0 < n div 10" by simp
    with False "1.IH" have "hd (digits (n div 10)) \<noteq> 0x30" by simp
    with False show ?thesis by (simp add: digits.simps [of n] digits_nonempty)
  qed
qed

lemma length_digits_one: "1 < length (digits n) \<Longrightarrow> 0 < n"
  by (cases "n = 0") (simp_all add: digits.simps)

lemma hd_digits_not_minus: "hd (digits n) \<noteq> 0x2D"
proof -
  have "hd (digits n) \<in> set (digits n)" by (simp add: digits_nonempty)
  then have "is_digit (hd (digits n))" by (rule is_digit_digits)
  then show ?thesis by (auto simp: is_digit_def)
qed

lemma rest_ok_hd: "rest_ok r \<Longrightarrow> r = [] \<or> (hd r \<noteq> 0x2E \<and> hd r \<noteq> 0x65 \<and> hd r \<noteq> 0x45)"
  by (auto simp: rest_ok_def)

lemma parse_number_digits:
  assumes "rest_ok r"
  shows "parse_number (digits n @ r) = Some (int n, r)"
proof -
  have h: "digits n @ r \<noteq> []" "hd (digits n @ r) = hd (digits n)" by (simp_all add: digits_nonempty)
  have lz: "\<not> (1 < length (digits n) \<and> hd (digits n) = 0x30)"
    using length_digits_one [of n] hd_digits_positive [of n] by blast
  show ?thesis
    using assms lz rest_ok_hd [OF assms]
    by (simp add: parse_number_def Let_def h hd_digits_not_minus takeWhile_digits dropWhile_digits
          digits_nonempty decimal_value_digits)
qed

lemma parse_number_minus:
  assumes "rest_ok r"
  shows "parse_number (0x2D # digits n @ r) = Some (- int n, r)"
proof -
  have lz: "\<not> (1 < length (digits n) \<and> hd (digits n) = 0x30)"
    using length_digits_one [of n] hd_digits_positive [of n] by blast
  show ?thesis
    using assms lz rest_ok_hd [OF assms]
    by (simp add: parse_number_def Let_def takeWhile_digits dropWhile_digits
          digits_nonempty decimal_value_digits)
qed

lemma parse_number_toString:
  "rest_ok r \<Longrightarrow> parse_number (number_toString i @ r) = Some (i, r)"
  using parse_number_digits [of r "nat i"] parse_number_minus [of r "nat (- i)"]
  by (simp add: number_toString_def)

lemma number_toString_start:
  "\<exists>c t. number_toString i = c # t \<and> (c = 0x2D \<or> is_digit c)"
proof (cases "i < 0")
  case True
  then show ?thesis by (simp add: number_toString_def)
next
  case False
  obtain c t where ct: "digits (nat i) = c # t" using digits_nonempty [of "nat i"] by (cases "digits (nat i)") auto
  then have "c \<in> set (digits (nat i))" by simp
  then have "is_digit c" by (rule is_digit_digits)
  with False ct show ?thesis by (simp add: number_toString_def)
qed

lemma number_start_facts:
  "number_start c \<Longrightarrow> \<not> is_ws c \<and> c \<noteq> 0x7B \<and> c \<noteq> 0x5B \<and> c \<noteq> 0x22 \<and> c \<noteq> 0x74
     \<and> c \<noteq> 0x66 \<and> c \<noteq> 0x6E \<and> c \<noteq> 0x5D \<and> c \<noteq> 0x7D \<and> c \<noteq> 0x2C \<and> c \<noteq> 0x3A"
  by (auto simp: number_start_def is_digit_def is_ws_def)

lemma startsWith_Cons_lit:
  "c \<noteq> 0x74 \<Longrightarrow> \<not> startsWith (c # t) (lit ''true'')"
  "c \<noteq> 0x66 \<Longrightarrow> \<not> startsWith (c # t) (lit ''false'')"
  "c \<noteq> 0x6E \<Longrightarrow> \<not> startsWith (c # t) (lit ''null'')"
  by (simp_all add: lit_def)

lemma parse_value_number:
  assumes "rest_ok r"
  shows "parse_value (Suc n) (number_toString i @ r) = Some (JNum i, r)"
proof -
  obtain c t where ct: "number_toString i = c # t" "number_start c"
    using number_toString_start [of i] by (auto simp: number_start_def)
  note f = number_start_facts [OF ct(2)]
  have p: "parse_number (c # t @ r) = Some (i, r)"
    using parse_number_toString [OF assms, of i] ct(1) by simp
  show ?thesis
    using f p by (simp add: ct(1) skip_ws_start startsWith_Cons_lit)
qed

lemma parse_value_string:
  "parse_value (Suc n) (QuoteJSONString s @ r) = Some (JStr s, r)"
proof -
  have q: "QuoteJSONString s @ r = 0x22 # (tl (QuoteJSONString s) @ r)"
    by (simp add: QuoteJSONString_def)
  have w: "\<not> is_ws 0x22" by (simp add: is_ws_def)
  show ?thesis
    by (subst q) (simp add: skip_ws_start [OF w] parse_chars_Quote del: parse_chars.simps)
qed

lemma parse_value_literals:
  "parse_value (Suc n) (lit ''null'' @ r) = Some (JNull, r)"
  "parse_value (Suc n) (lit ''true'' @ r) = Some (JBool True, r)"
  "parse_value (Suc n) (lit ''false'' @ r) = Some (JBool False, r)"
  by (simp_all add: lit_def skip_ws_def is_ws_def)

lemma parse_value_empty:
  "parse_value (Suc n) (lit ''[]'' @ r) = Some (JArr [], r)"
  "parse_value (Suc n) (lit ''{}'' @ r) = Some (JObj [], r)"
  by (simp_all add: lit_def skip_ws_def is_ws_def expect_def)

lemma parse_value_gap_sep: "parse_value n (gap_sep g d @ s) = parse_value n s"
  by (cases n) (simp_all add: skip_ws_gap_sep)

lemma fuel_of_pos: "0 < fuel_of v"
  by (cases v) simp_all

lemma rest_ok_simps:
  "rest_ok []" "rest_ok (0x2C # s)" "rest_ok (gap_sep g d @ 0x5D # s)" "rest_ok (gap_sep g d @ 0x7D # s)"
  by (simp_all add: rest_ok_def gap_sep_def)

lemma parse_elements_gap_sep: "parse_elements n (gap_sep g d @ s) acc = parse_elements n s acc"
  by (cases n) (simp_all add: parse_value_gap_sep)

lemma parse_members_gap_sep: "parse_members n (gap_sep g d @ s) acc = parse_members n s acc"
  by (cases n) (simp_all add: expect_gap_sep)

lemma not_ws_punct: "\<not> is_ws 0x5D" "\<not> is_ws 0x7D" "\<not> is_ws 0x2C" "\<not> is_ws 0x22" "\<not> is_ws 0x3A"
   "\<not> is_ws 0x5B" "\<not> is_ws 0x7B"
  by (simp_all add: is_ws_def)

lemma expect_close:
  "expect 0x2C (gap_sep g d @ 0x5D # s) = None"
  "expect 0x5D (gap_sep g d @ 0x5D # s) = Some s"
  "expect 0x2C (gap_sep g d @ 0x7D # s) = None"
  "expect 0x7D (gap_sep g d @ 0x7D # s) = Some s"
  "expect 0x2C (0x2C # s) = Some s"
  by (simp_all add: expect_gap_sep expect_start not_ws_punct)

lemma expect_quote: "expect 0x22 (QuoteJSONString k @ s) = Some (tl (QuoteJSONString k) @ s)"
  by (simp add: QuoteJSONString_def expect_start not_ws_punct)

lemma expect_colon: "expect 0x3A (colon g @ s) = Some (tl (colon g) @ s)"
  by (simp add: colon_def expect_start not_ws_punct)

lemma parse_value_colon: "parse_value n (tl (colon g) @ s) = parse_value n s"
  by (cases n) (simp_all add: colon_def skip_ws_def is_ws_def)

lemma set_property_fresh: "k \<notin> fst ` set acc \<Longrightarrow> set_property acc k v = acc @ [(k, v)]"
  by (induction acc) auto

lemma serialize_start:
  "\<exists>c t. serialize g d v = c # t \<and> \<not> is_ws c \<and> c \<noteq> 0x5D \<and> c \<noteq> 0x7D"
proof (cases v)
  case (JNum i)
  obtain c t where "number_toString i = c # t" "number_start c"
    using number_toString_start [of i] by (auto simp: number_start_def)
  with JNum number_start_facts [of c] show ?thesis by simp
qed (simp_all add: lit_def is_ws_def QuoteJSONString_def)

lemma array_join_start: "x = c # t \<Longrightarrow> \<exists>t'. array_join s (x # xs) = c # t'"
  by (cases xs) simp_all

lemma parse_elements_join:
  "vs \<noteq> [] \<Longrightarrow>
   (\<forall>x\<in>set vs. \<forall>n r. fuel_of x \<le> n \<longrightarrow> rest_ok r
      \<longrightarrow> parse_value n (serialize g d x @ r) = Some (x, r)) \<Longrightarrow>
   sum_list (map fuel_of vs) + 1 \<le> n \<Longrightarrow>
   parse_elements n (array_join (0x2C # gap_sep g d) (map (serialize g d) vs)
      @ gap_sep g d0 @ 0x5D # rest) acc = Some (JArr (acc @ vs), rest)"
proof (induction vs arbitrary: n acc rule: list_nonempty_induct)
  case (single v)
  then obtain m where n: "n = Suc m" and m: "fuel_of v \<le> m" by (cases n) auto
  have "parse_value m (serialize g d v @ gap_sep g d0 @ 0x5D # rest)
      = Some (v, gap_sep g d0 @ 0x5D # rest)"
    using single.prems(1) m by (simp add: rest_ok_simps)
  then show ?case by (simp add: n expect_close)
next
  case (cons v ws)
  then obtain m where n: "n = Suc m" and m: "fuel_of v + sum_list (map fuel_of ws) \<le> m"
    by (cases n) auto
  obtain w ws' where ws: "ws = w # ws'" using cons.hyps by (cases ws) auto
  let ?R = "array_join (0x2C # gap_sep g d) (map (serialize g d) ws) @ gap_sep g d0 @ 0x5D # rest"
  have pv: "parse_value m (serialize g d v @ 0x2C # gap_sep g d @ ?R) = Some (v, 0x2C # gap_sep g d @ ?R)"
    using cons.prems(1) m by (simp add: rest_ok_simps)
  have "sum_list (map fuel_of ws) + 1 \<le> m" using m fuel_of_pos [of v] by simp
  then have ih: "parse_elements m ?R (acc @ [v]) = Some (JArr ((acc @ [v]) @ ws), rest)"
    using cons.IH [of m "acc @ [v]"] cons.prems(1) by simp
  have "parse_elements n (serialize g d v @ 0x2C # gap_sep g d @ ?R) acc = Some (JArr (acc @ v # ws), rest)"
    using pv ih by (simp add: n expect_close parse_elements_gap_sep)
  then show ?case by (simp add: ws)
qed

lemma parse_members_join:
  "kvs \<noteq> [] \<Longrightarrow>
   (\<forall>kv\<in>set kvs. \<forall>n r. fuel_of (snd kv) \<le> n \<longrightarrow> rest_ok r
      \<longrightarrow> parse_value n (serialize g d (snd kv) @ r) = Some (snd kv, r)) \<Longrightarrow>
   distinct (map fst acc @ map fst kvs) \<Longrightarrow>
   sum_list (map (\<lambda>kv. fuel_of (snd kv)) kvs) + 1 \<le> n \<Longrightarrow>
   parse_members n (array_join (0x2C # gap_sep g d)
        (map (\<lambda>(k, v). QuoteJSONString k @ colon g @ serialize g d v) kvs)
      @ gap_sep g d0 @ 0x7D # rest) acc = Some (JObj (acc @ kvs), rest)"
proof (induction kvs arbitrary: n acc rule: list_nonempty_induct)
  case (single kv)
  obtain k v where kv: "kv = (k, v)" by (cases kv)
  from single obtain m where n: "n = Suc m" and m: "fuel_of v \<le> m" by (cases n) (auto simp: kv)
  have pv: "parse_value m (serialize g d v @ gap_sep g d0 @ 0x7D # rest)
      = Some (v, gap_sep g d0 @ 0x7D # rest)"
    using single.prems(1) m by (simp add: rest_ok_simps kv)
  have fresh: "set_property acc k v = acc @ [(k, v)]"
    using single.prems(2) by (intro set_property_fresh) (auto simp: kv)
  show ?case
    using pv fresh
    by (simp add: n kv expect_close expect_quote expect_colon parse_value_colon parse_chars_Quote
          del: parse_chars.simps)
next
  case (cons kv ws)
  obtain k v where kv: "kv = (k, v)" by (cases kv)
  from cons obtain m where n: "n = Suc m"
    and m: "fuel_of v + sum_list (map (\<lambda>kv. fuel_of (snd kv)) ws) \<le> m"
    by (cases n) (auto simp: kv)
  obtain w ws' where ws: "ws = w # ws'" using cons.hyps by (cases ws) auto
  let ?R = "array_join (0x2C # gap_sep g d)
        (map (\<lambda>(k, v). QuoteJSONString k @ colon g @ serialize g d v) ws) @ gap_sep g d0 @ 0x7D # rest"
  have pv: "parse_value m (serialize g d v @ 0x2C # gap_sep g d @ ?R) = Some (v, 0x2C # gap_sep g d @ ?R)"
    using cons.prems(1) m by (simp add: rest_ok_simps kv)
  have fresh: "set_property acc k v = acc @ [(k, v)]"
    using cons.prems(2) by (intro set_property_fresh) (auto simp: kv)
  have "sum_list (map (\<lambda>kv. fuel_of (snd kv)) ws) + 1 \<le> m" using m fuel_of_pos [of v] by simp
  moreover have "distinct (map fst (acc @ [(k, v)]) @ map fst ws)"
    using cons.prems(2) by (auto simp: kv)
  ultimately have ih: "parse_members m ?R (acc @ [(k, v)]) = Some (JObj ((acc @ [(k, v)]) @ ws), rest)"
    using cons.IH [of "acc @ [(k, v)]" m] cons.prems(1) by simp
  have "parse_members n (QuoteJSONString k @ colon g @ serialize g d v @ 0x2C # gap_sep g d @ ?R) acc
      = Some (JObj (acc @ (k, v) # ws), rest)"
    using pv ih fresh
    by (simp add: n expect_close expect_quote expect_colon parse_value_colon parse_chars_Quote
          parse_members_gap_sep del: parse_chars.simps)
  then show ?case by (simp add: ws kv)
qed

lemma parse_value_array:
  assumes "vs \<noteq> []"
    and "parse_elements n (array_join (0x2C # gap_sep g (Suc d)) (map (serialize g (Suc d)) vs)
      @ gap_sep g d @ 0x5D # r) [] = Some (JArr vs, r)"
  shows "parse_value (Suc n) (serialize g d (JArr vs) @ r) = Some (JArr vs, r)"
proof -
  obtain v ws where vs: "vs = v # ws" using assms(1) by (cases vs) auto
  obtain c t where c: "serialize g (Suc d) v = c # t" "\<not> is_ws c" "c \<noteq> 0x5D"
    using serialize_start [of g "Suc d" v] by auto
  obtain t' where t': "array_join (0x2C # gap_sep g (Suc d)) (map (serialize g (Suc d)) vs) = c # t'"
    using array_join_start [OF c(1)] by (auto simp: vs)
  have e: "expect 0x5D (gap_sep g (Suc d) @ array_join (0x2C # gap_sep g (Suc d)) (map (serialize g (Suc d)) vs)
      @ gap_sep g d @ 0x5D # r) = None"
    using c by (simp add: expect_gap_sep t' expect_start)
  show ?thesis
    using assms e
    by (simp add: lit_def skip_ws_start not_ws_punct parse_elements_gap_sep)
qed

lemma parse_value_object:
  assumes "kvs \<noteq> []"
    and "parse_members n (array_join (0x2C # gap_sep g (Suc d))
        (map (\<lambda>(k, v). QuoteJSONString k @ colon g @ serialize g (Suc d) v) kvs)
      @ gap_sep g d @ 0x7D # r) [] = Some (JObj kvs, r)"
  shows "parse_value (Suc n) (serialize g d (JObj kvs) @ r) = Some (JObj kvs, r)"
proof -
  obtain kv ws where kvs: "kvs = kv # ws" using assms(1) by (cases kvs) auto
  obtain k v where kv: "kv = (k, v)" by (cases kv)
  have "\<exists>t. QuoteJSONString k @ colon g @ serialize g (Suc d) v = 0x22 # t"
    by (simp add: QuoteJSONString_def)
  then obtain t where t: "QuoteJSONString k @ colon g @ serialize g (Suc d) v = 0x22 # t" ..
  obtain t' where t': "array_join (0x2C # gap_sep g (Suc d))
        (map (\<lambda>(k, v). QuoteJSONString k @ colon g @ serialize g (Suc d) v) kvs) = 0x22 # t'"
    using array_join_start [OF t] by (auto simp: kvs kv)
  have e: "expect 0x7D (gap_sep g (Suc d) @ array_join (0x2C # gap_sep g (Suc d))
        (map (\<lambda>(k, v). QuoteJSONString k @ colon g @ serialize g (Suc d) v) kvs)
      @ gap_sep g d @ 0x7D # r) = None"
    by (simp add: expect_gap_sep t' expect_start not_ws_punct)
  show ?thesis
    using assms e
    by (simp add: lit_def skip_ws_start not_ws_punct parse_members_gap_sep)
qed

lemma parse_value_serialize:
  "wf_json v \<Longrightarrow> fuel_of v \<le> n \<Longrightarrow> rest_ok r \<Longrightarrow>
   parse_value n (serialize g d v @ r) = Some (v, r)"
proof (induction v arbitrary: n d r)
  case JNull
  then show ?case using parse_value_literals(1) [of "n - 1" r] by (cases n) simp_all
next
  case (JBool b)
  then show ?case
    using parse_value_literals(2) [of "n - 1" r] parse_value_literals(3) [of "n - 1" r]
    by (cases n) simp_all
next
  case (JNum i)
  then show ?case using parse_value_number [of r "n - 1" i] by (cases n) simp_all
next
  case (JStr s)
  then show ?case using parse_value_string [of "n - 1" s r] by (cases n) simp_all
next
  case (JArr vs)
  from JArr.prems(2) obtain m where n: "n = Suc m" and m: "sum_list (map fuel_of vs) + 1 \<le> m"
    by (cases n) auto
  show ?case
  proof (cases "vs = []")
    case True
    then show ?thesis using parse_value_empty(1) [of m r] by (simp add: n)
  next
    case False
    have ih: "\<forall>x\<in>set vs. \<forall>n r. fuel_of x \<le> n \<longrightarrow> rest_ok r
        \<longrightarrow> parse_value n (serialize g (Suc d) x @ r) = Some (x, r)"
      using JArr.IH JArr.prems(1) by (auto simp: list_all_iff)
    have "parse_elements m (array_join (0x2C # gap_sep g (Suc d)) (map (serialize g (Suc d)) vs)
        @ gap_sep g d @ 0x5D # r) [] = Some (JArr ([] @ vs), r)"
      using False ih m by (rule parse_elements_join)
    then show ?thesis unfolding n using parse_value_array [OF False] by simp
  qed
next
  case (JObj kvs)
  from JObj.prems(2) obtain m where n: "n = Suc m"
    and m: "sum_list (map (\<lambda>kv. fuel_of (snd kv)) kvs) + 1 \<le> m"
    by (cases n) auto
  show ?case
  proof (cases "kvs = []")
    case True
    then show ?thesis using parse_value_empty(2) [of m r] by (simp add: n)
  next
    case False
    have ih: "\<forall>kv\<in>set kvs. \<forall>n r. fuel_of (snd kv) \<le> n \<longrightarrow> rest_ok r
        \<longrightarrow> parse_value n (serialize g (Suc d) (snd kv) @ r) = Some (snd kv, r)"
    proof (intro ballI allI impI)
      fix kv n r assume a: "kv \<in> set kvs" "fuel_of (snd kv) \<le> n" "rest_ok r"
      have "wf_json (snd kv)" using JObj.prems(1) a(1) by (auto simp: list_all_iff)
      moreover have "snd kv \<in> Basic_BNFs.snds kv" by (cases kv) simp
      ultimately show "parse_value n (serialize g (Suc d) (snd kv) @ r) = Some (snd kv, r)"
        using JObj.IH [OF a(1)] a(2,3) by blast
    qed
    have dist: "distinct (map fst [] @ map fst kvs)" using JObj.prems(1) by simp
    have "parse_members m (array_join (0x2C # gap_sep g (Suc d))
        (map (\<lambda>(k, v). QuoteJSONString k @ colon g @ serialize g (Suc d) v) kvs)
        @ gap_sep g d @ 0x7D # r) [] = Some (JObj ([] @ kvs), r)"
      using False ih dist m by (rule parse_members_join)
    then show ?thesis unfolding n using parse_value_object [OF False] by simp
  qed
qed

lemma length_array_join: "sum_list (map length xs) \<le> length (array_join s xs)"
  by (induction s xs rule: array_join.induct) simp_all

lemma fuel_of_length: "fuel_of v \<le> length (serialize g d v)"
proof (induction v arbitrary: d)
  case (JArr vs)
  have "sum_list (map fuel_of vs) \<le> sum_list (map (\<lambda>x. length (serialize g (Suc d) x)) vs)"
    using JArr.IH by (intro sum_list_mono) simp
  also have "\<dots> \<le> length (array_join (0x2C # gap_sep g (Suc d)) (map (serialize g (Suc d)) vs))"
    using length_array_join [of "map (serialize g (Suc d)) vs" "0x2C # gap_sep g (Suc d)"]
    by (simp add: comp_def)
  finally show ?case by (simp add: lit_def)
next
  case (JObj kvs)
  have "sum_list (map (\<lambda>kv. fuel_of (snd kv)) kvs)
      \<le> sum_list (map (\<lambda>kv. length (QuoteJSONString (fst kv) @ colon g @ serialize g (Suc d) (snd kv))) kvs)"
  proof (intro sum_list_mono)
    fix kv assume a: "kv \<in> set kvs"
    have "snd kv \<in> Basic_BNFs.snds kv" by (cases kv) simp
    then have "fuel_of (snd kv) \<le> length (serialize g (Suc d) (snd kv))"
      using JObj.IH [OF a] by blast
    then show "fuel_of (snd kv) \<le> length (QuoteJSONString (fst kv) @ colon g @ serialize g (Suc d) (snd kv))"
      by simp
  qed
  also have "\<dots> \<le> length (array_join (0x2C # gap_sep g (Suc d))
      (map (\<lambda>(k, v). QuoteJSONString k @ colon g @ serialize g (Suc d) v) kvs))"
    using length_array_join [of "map (\<lambda>(k, v). QuoteJSONString k @ colon g @ serialize g (Suc d) v) kvs"
        "0x2C # gap_sep g (Suc d)"]
    by (simp add: comp_def case_prod_unfold)
  finally show ?case by (simp add: lit_def)
next
  case (JBool b)
  then show ?case by (simp add: lit_def)
next
  case (JNum i)
  then show ?case using number_toString_start [of i] by auto
qed (simp_all add: lit_def QuoteJSONString_def)

lemma JSON_parse_serialize: "wf_json v \<Longrightarrow> JSON_parse (serialize g 0 v) = Some v"
proof -
  assume wf: "wf_json v"
  have "fuel_of v \<le> Suc (length (serialize g 0 v))"
    using fuel_of_length [of v g 0] by simp
  with wf have "parse_value (Suc (length (serialize g 0 v))) (serialize g 0 v @ []) = Some (v, [])"
    by (intro parse_value_serialize) (simp_all add: rest_ok_simps)
  then show ?thesis by (simp add: JSON_parse_def skip_ws_def)
qed








lemma JSON_parse_stringify: "wf_json v \<Longrightarrow> JSON_parse (JSON_stringify v) = Some v"
  by (simp add: JSON_stringify_def JSON_parse_serialize)



lemma set_property_nonempty: "set_property kvs k v \<noteq> []"
  by (cases kvs) simp_all

lemma map_of_set_property: "map_of (set_property kvs k v) k = Some v"
  by (induction kvs) auto

lemma first_line_object: "kvs \<noteq> [] \<Longrightarrow> first_line (JSON_stringify2 (JObj kvs)) = lit ''{''"
  by (simp add: first_line_def JSON_stringify2_def gap_sep_def lit_def)

lemma first_line_with_id: "first_line (JSON_stringify2 (with_id_c1 (JObj kvs))) = lit ''{''"
  by (simp add: with_id_c1_def first_line_object set_property_nonempty)

lemma first_line_contact:
  "first_line (lit ''Contact created successfully with ID: c1'' @ [0x0A, 0x0A] @ t)
     = lit ''Contact created successfully with ID: c1''"
  by (simp add: first_line_def lit_def)

lemma ghl_create_contact_echo:
  assumes "wf_json (JObj kvs)"
  shows "fst (ghl_handler echo_backend (CreateContact apiKey (JObj kvs)))
     = Inr (success_envelope (Some (JSON_stringify2 (with_id_c1 (JObj kvs)))))"
proof -
  have "echo_backend (ghl_request (CreateContact apiKey (JObj kvs)))
      = Inr (json_response 200 (lit ''OK'') (with_id_c1 (JObj kvs)))"
    using JSON_parse_stringify [OF assms]
    by (simp add: echo_backend_def ghl_request_def ghl_fetch_request_def)
  then show ?thesis
    by (simp add: ghl_handler_def fst_try_catch ghl_try_fst json_response_def ok_def)
qed

lemma payload_json_present: "payload_json (present kvs) = JObj kvs"
  by (induction kvs) (auto simp: payload_json_def present_def)

lemma created_line_with_id:
  "created_line w (with_id_c1 (JObj kvs))
     = Inr (w @ lit '' created successfully with ID: '' @ lit ''c1'' @ [0x0A, 0x0A])"
  by (simp add: created_line_def with_id_c1_def get_prop_def map_of_set_property ToString_opt_def)

lemma create_contact_posted_wf:
  "wf_json (JObj ([(lit ''name'', JStr name), (lit ''email'', JStr email)]
          @ if_truthy (lit ''phone'') phone
          @ if_truthy (lit ''mobile'') mobilePhone
          @ if_truthy (lit ''twitter_id'') twitterId
          @ if_truthy (lit ''description'') description
          @ (case companyName of
               None \<Rightarrow> []
             | Some c \<Rightarrow>
                 if c = [] then []
                 else [(lit ''company_id'', JNull),
                       (lit ''other_companies'', JArr [JObj [(lit ''name'', JStr c)]])])))"
  by (cases phone; cases mobilePhone; cases twitterId; cases description; cases companyName)
     (simp_all add: if_truthy_def lit_def)

lemma freshdesk_create_contact_echo:
  assumes "fi = FreshdeskCreateContact apiKey subdomain name email phone mobilePhone twitterId
      companyName description"
  shows "\<exists>posted. ax_data (freshworks_request fi) = Some (present posted)
     \<and> fst (freshworks_handler echo_axios fi)
         = Inr (success_envelope
                 (Some (lit ''Contact created successfully with ID: c1'' @ [0x0A, 0x0A]
                    @ JSON_stringify2 (with_id_c1 (JObj posted)))))"
proof -
  let ?posted = "[(lit ''name'', JStr name), (lit ''email'', JStr email)]
          @ if_truthy (lit ''phone'') phone
          @ if_truthy (lit ''mobile'') mobilePhone
          @ if_truthy (lit ''twitter_id'') twitterId
          @ if_truthy (lit ''description'') description
          @ (case companyName of
               None \<Rightarrow> []
             | Some c \<Rightarrow>
                 if c = [] then []
                 else [(lit ''company_id'', JNull),
                       (lit ''other_companies'', JArr [JObj [(lit ''name'', JStr c)]])])"
  have d: "ax_data (freshworks_request fi) = Some (present ?posted)"
    by (simp add: assms client_post_def)
  have "JSON_parse (JSON_stringify (JObj ?posted)) = Some (JObj ?posted)"
    by (rule JSON_parse_stringify) (rule create_contact_posted_wf)
  with d have e: "echo_axios (freshworks_request fi) = Inr (with_id_c1 (JObj ?posted))"
    by (simp add: echo_axios_def payload_json_present)
  have p: "freshworks_prefix fi (with_id_c1 (JObj ?posted))
      = Inr (lit ''Contact created successfully with ID: c1'' @ [0x0A, 0x0A])"
    by (simp add: assms created_line_with_id) (simp add: lit_def)
  have "fst (freshworks_handler echo_axios fi)
         = Inr (success_envelope
                 (Some (lit ''Contact created successfully with ID: c1'' @ [0x0A, 0x0A]
                    @ JSON_stringify2 (with_id_c1 (JObj ?posted)))))"
    using e p by (simp add: freshworks_handler_def fst_try_catch freshworks_try_def)
  with d show ?thesis by blast
qed

lemma stringify2_echo_c1: "JSON_stringify2 (with_id_c1 contact_a_b) = pretty_echo_c1"
proof -
  have p: "\<forall>c \<in> set (lit ''email''). plain_unit c" "\<forall>c \<in> set (lit ''a@b.com''). plain_unit c"
    "\<forall>c \<in> set (lit ''c1''). plain_unit c"
    by (simp_all add: lit_def plain_unit_def)
  have w: "with_id_c1 contact_a_b
      = JObj [(lit ''email'', JStr (lit ''a@b.com'')), (lit ''id'', JStr (lit ''c1''))]"
    by (simp add: with_id_c1_def contact_a_b_def lit_def)
  show ?thesis
    unfolding w
    by (simp add: JSON_stringify2_def pretty_echo_c1_def Quote_plain plain_lits p gap_sep_def colon_def)
       (simp add: lit_def numeral_2_eq_2)
qed




section \<open>Faults never leave a handler\<close>

text \<open>
  Claim C1. Every handler of every server is a try block and a catch block. Whatever the
  try block throws (a rejection of the HTTP client, a rejection of \<^verbatim>\<open>response.json()\<close>
  or \<^verbatim>\<open>response.text()\<close>, an error thrown by \<^verbatim>\<open>ghlRequest\<close>, a URIError or a
  TypeError while the request or the reply is built), the handler returns the envelope
  of its catch block, which has \<^verbatim>\<open>isError: true\<close> and one text item holding a string;
  and in every case the handler returns an envelope: nothing is thrown past it.
\<close>

theorem faults_become_error_envelopes:
  "(\<exists>e. fst (ghl_handler fetch gi) = Inr e)
   \<and> (\<forall>t. fst (ghl_try fetch gi) = Inl t \<longrightarrow>
         fst (ghl_handler fetch gi) = Inr (ghl_catch t)
           \<and> isError (ghl_catch t) = Some True \<and> well_formed (ghl_catch t))
   \<and> (\<exists>e. fst (keap_handler fetch ki) = Inr e)
   \<and> (\<forall>t. fst (keap_try fetch ki) = Inl t \<longrightarrow>
         fst (keap_handler fetch ki) = Inr (report_catch (keap_label ki) t)
           \<and> isError (report_catch (keap_label ki) t) = Some True
           \<and> well_formed (report_catch (keap_label ki) t))
   \<and> (\<exists>e. fst (hubspot_handler fetch hi) = Inr e)
   \<and> (\<forall>t. fst (hubspot_try fetch hi) = Inl t \<longrightarrow>
         fst (hubspot_handler fetch hi) = Inr (report_catch (hubspot_label hi) t)
           \<and> isError (report_catch (hubspot_label hi) t) = Some True
           \<and> well_formed (report_catch (hubspot_label hi) t))
   \<and> (\<exists>e. fst (freshworks_handler axios fi) = Inr e)
   \<and> (\<forall>t. fst (freshworks_try axios fi) = Inl t \<longrightarrow>
         fst (freshworks_handler axios fi) = Inr (freshworks_catch t)
           \<and> isError (freshworks_catch t) = Some True \<and> well_formed (freshworks_catch t))
   \<and> (\<exists>e. fst (pipedrive_handler sdk pi) = Inr e)
   \<and> (\<forall>t. fst (pipedrive_try sdk pi) = Inl t \<longrightarrow>
         fst (pipedrive_handler sdk pi) = Inr (pipedrive_catch (pipedrive_label pi) t)
           \<and> isError (pipedrive_catch (pipedrive_label pi) t) = Some True
           \<and> well_formed (pipedrive_catch (pipedrive_label pi) t))"
  by (simp add: ghl_handler_def keap_handler_def hubspot_handler_def freshworks_handler_def
        pipedrive_handler_def fst_try_catch ghl_catch_def report_catch_def freshworks_catch_def
        pipedrive_catch_def error_envelope_facts)

text \<open>
  A refused connection (GoHighLevel), a query that cannot be encoded (Keap), a body that
  is not JSON (Hubspot), a timeout (FreshWorks) and an SDK that resolves to
  \<^verbatim>\<open>undefined\<close> (Pipedrive).
\<close>

theorem faults_become_error_envelopes_witness:
  "fst (ghl_try (rejecting (JsError (lit ''connect ECONNREFUSED'') None)) (GetPipelines (lit ''key'')))
     = Inl (JsError (lit ''connect ECONNREFUSED'') None)
   \<and> fst (ghl_handler (rejecting (JsError (lit ''connect ECONNREFUSED'') None)) (GetPipelines (lit ''key'')))
     = Inr (error_envelope (lit ''Error: connect ECONNREFUSED''))
   \<and> fst (keap_try (rejecting (JsError (lit ''connect ECONNREFUSED'') None))
            (KeapSearchContacts (lit ''key'') [0xD800] None None))
     = Inl URIError
   \<and> fst (keap_handler (rejecting (JsError (lit ''connect ECONNREFUSED'') None))
            (KeapSearchContacts (lit ''key'') [0xD800] None None))
     = Inr (error_envelope (lit ''Error searching Keap contacts: URI malformed''))
   \<and> fst (hubspot_try
            (fake_fetch (text_response 200 (lit ''OK'') (lit ''<html></html>'')
                           (JsError (lit ''Unexpected token < in JSON at position 0'') None)))
            (HubspotListDeals (lit ''key'') None None))
     = Inl (JsError (lit ''Unexpected token < in JSON at position 0'') None)
   \<and> fst (hubspot_handler
            (fake_fetch (text_response 200 (lit ''OK'') (lit ''<html></html>'')
                           (JsError (lit ''Unexpected token < in JSON at position 0'') None)))
            (HubspotListDeals (lit ''key'') None None))
     = Inr (error_envelope
             (lit ''Error fetching Hubspot deals: Unexpected token < in JSON at position 0''))
   \<and> fst (freshworks_try (rejecting (JsError (lit ''timeout of 1000ms exceeded'') None))
            (FreshdeskGetTicket (lit ''key'') (lit ''acme'') 7))
     = Inl (JsError (lit ''timeout of 1000ms exceeded'') None)
   \<and> fst (freshworks_handler (rejecting (JsError (lit ''timeout of 1000ms exceeded'') None))
            (FreshdeskGetTicket (lit ''key'') (lit ''acme'') 7))
     = Inr (error_envelope (lit ''Error: timeout of 1000ms exceeded''))
   \<and> fst (pipedrive_try (resolving None) (GetPersonByID 7))
     = Inl (TypeError (lit ''Cannot read properties of undefined (reading '' @ [0x27] @ lit ''data''
                         @ [0x27] @ lit '')''))
   \<and> fst (pipedrive_handler (resolving None) (GetPersonByID 7))
     = Inr (error_envelope
             (lit ''Error fetching person 7: Cannot read properties of undefined (reading ''
                @ [0x27] @ lit ''data'' @ [0x27] @ lit '')''))"
proof -
  let ?refused = "JsError (lit ''connect ECONNREFUSED'') None"
  let ?html = "text_response 200 (lit ''OK'') (lit ''<html></html>'')
                 (JsError (lit ''Unexpected token < in JSON at position 0'') None)"
  let ?lone = "KeapSearchContacts (lit ''key'') [0xD800] None None"
  let ?timeout = "JsError (lit ''timeout of 1000ms exceeded'') None"
  have g: "fst (ghl_try (rejecting ?refused) (GetPipelines (lit ''key''))) = Inl ?refused"
    by (simp add: ghl_try_fst rejecting_def)
  have k: "fst (keap_try (rejecting ?refused) ?lone) = Inl URIError"
    by (simp add: keap_try_def keap_search_query_def keap_searchParam_def
          uri_unescaped_def is_alnum_def is_high_surrogate_def)
  have h: "fst (hubspot_try (fake_fetch ?html) (HubspotListDeals (lit ''key'') None None))
      = Inl (JsError (lit ''Unexpected token < in JSON at position 0'') None)"
    by (simp add: hubspot_try_def propertiesQuery_def hubspot_deal_properties_def z_default_def
          fetch_and_report_def fake_fetch_def text_response_def ok_def lit_def
          uri_unescaped_def is_alnum_def)
  have f: "fst (freshworks_try (rejecting ?timeout) (FreshdeskGetTicket (lit ''key'') (lit ''acme'') 7))
      = Inl ?timeout"
    by (simp add: freshworks_try_def rejecting_def)
  have p: "fst (pipedrive_try (resolving None) (GetPersonByID 7))
     = Inl (TypeError (lit ''Cannot read properties of undefined (reading '' @ [0x27] @ lit ''data''
                         @ [0x27] @ lit '')''))"
    by (simp add: pipedrive_try_def resolving_def get_prop_opt_def)
  note w = faults_become_error_envelopes
  from w [of "rejecting ?refused" "GetPipelines (lit ''key'')"] g
  have g': "fst (ghl_handler (rejecting ?refused) (GetPipelines (lit ''key''))) = Inr (ghl_catch ?refused)"
    by blast
  from w [of "rejecting ?refused" _ ?lone] k
  have k': "fst (keap_handler (rejecting ?refused) ?lone) = Inr (report_catch (keap_label ?lone) URIError)"
    by blast
  from w [of "fake_fetch ?html" _ _ "HubspotListDeals (lit ''key'') None None"] h
  have h': "fst (hubspot_handler (fake_fetch ?html) (HubspotListDeals (lit ''key'') None None))
     = Inr (report_catch (hubspot_label (HubspotListDeals (lit ''key'') None None))
             (JsError (lit ''Unexpected token < in JSON at position 0'') None))"
    by blast
  from w [of _ _ _ _ "rejecting ?timeout" "FreshdeskGetTicket (lit ''key'') (lit ''acme'') 7"] f
  have f': "fst (freshworks_handler (rejecting ?timeout) (FreshdeskGetTicket (lit ''key'') (lit ''acme'') 7))
     = Inr (freshworks_catch ?timeout)"
    by blast
  from w [of _ _ _ _ _ _ "resolving None" "GetPersonByID 7"] p
  have p': "fst (pipedrive_handler (resolving None) (GetPersonByID 7))
     = Inr (pipedrive_catch (pipedrive_label (GetPersonByID 7))
              (TypeError (lit ''Cannot read properties of undefined (reading '' @ [0x27] @ lit ''data''
                         @ [0x27] @ lit '')'')))"
    by blast
  have c: "ghl_catch ?refused = error_envelope (lit ''Error: connect ECONNREFUSED'')"
    "report_catch (keap_label ?lone) URIError
       = error_envelope (lit ''Error searching Keap contacts: URI malformed'')"
    "report_catch (hubspot_label (HubspotListDeals (lit ''key'') None None))
             (JsError (lit ''Unexpected token < in JSON at position 0'') None)
       = error_envelope
             (lit ''Error fetching Hubspot deals: Unexpected token < in JSON at position 0'')"
    "freshworks_catch ?timeout = error_envelope (lit ''Error: timeout of 1000ms exceeded'')"
    "pipedrive_catch (pipedrive_label (GetPersonByID 7))
              (TypeError (lit ''Cannot read properties of undefined (reading '' @ [0x27] @ lit ''data''
                         @ [0x27] @ lit '')''))
       = error_envelope
             (lit ''Error fetching person 7: Cannot read properties of undefined (reading ''
                @ [0x27] @ lit ''data'' @ [0x27] @ lit '')'')"
    by (simp_all add: ghl_catch_def error_message_def z_default_def report_catch_def
          message_or_String_def URIError_def freshworks_catch_def handleApiError_def
          pipedrive_catch_def getErrorMessage_def isErrorWithMessage_def TypeError_def
          number_toString_def digits.simps lit_def)
  from g k h f p g' k' h' f' p' c show ?thesis
    by simp
qed

section \<open>Responses outside 2xx\<close>




section \<open>A 200 with body \<^verbatim>\<open>{"id": 42}\<close>\<close>

text \<open>
  Claim C7, as amended. When the vendor answers 200 with the JSON body
  \<^verbatim>\<open>{"id": 42}\<close>, every Keap, Hubspot and GoHighLevel tool that reached the vendor, and
  every FreshWorks tool that reads (the ones that call \<^verbatim>\<open>client.get\<close>), returns an
  envelope without \<^verbatim>\<open>isError\<close> whose text is exactly the serialization of the body with
  an indent of two spaces. A FreshWorks tool that creates or updates returns that
  serialization after its confirmation line and a blank line. A Pipedrive tool prints the
  \<^verbatim>\<open>data\<close> property of what the SDK resolves to: the serialization when \<^verbatim>\<open>data\<close> is the
  document, and a text that is \<^verbatim>\<open>undefined\<close> when the resolved value is the document
  itself, which has no \<^verbatim>\<open>data\<close>.
\<close>

theorem ok_id_42_envelopes:
  "(\<forall>req r. keap_request ki = Inr req \<and> fetch req = Inr r \<and> status r = 200
        \<and> response_json r = Inr body_id_42 \<longrightarrow>
      fst (keap_handler fetch ki) = Inr (success_envelope (Some pretty_id_42)))
   \<and> (\<forall>req r. hubspot_request hi = Inr req \<and> fetch req = Inr r \<and> status r = 200
        \<and> response_json r = Inr body_id_42 \<longrightarrow>
      fst (hubspot_handler fetch hi) = Inr (success_envelope (Some pretty_id_42)))
   \<and> (\<forall>r. fetch (ghl_request gi) = Inr r \<and> status r = 200 \<and> response_json r = Inr body_id_42 \<longrightarrow>
      fst (ghl_handler fetch gi) = Inr (success_envelope (Some pretty_id_42)))
   \<and> (axios (freshworks_request fi) = Inr body_id_42
        \<and> ax_method (freshworks_request fi) = lit ''get'' \<longrightarrow>
      fst (freshworks_handler axios fi) = Inr (success_envelope (Some pretty_id_42)))
   \<and> (axios (freshworks_request fi) = Inr body_id_42 \<longrightarrow>
      (\<exists>p. freshworks_prefix fi body_id_42 = Inr p
         \<and> fst (freshworks_handler axios fi) = Inr (success_envelope (Some (p @ pretty_id_42)))))
   \<and> (sdk (pipedrive_request pi) = Inr (Some (JObj [(lit ''data'', body_id_42)])) \<longrightarrow>
      fst (pipedrive_handler sdk pi) = Inr (success_envelope (Some pretty_id_42)))
   \<and> (sdk (pipedrive_request pi) = Inr (Some body_id_42) \<longrightarrow>
      fst (pipedrive_handler sdk pi) = Inr (success_envelope None))
   \<and> isError (success_envelope (Some pretty_id_42)) = None"
proof (intro conjI allI impI)
  fix req r
  assume "keap_request ki = Inr req \<and> fetch req = Inr r \<and> status r = 200
        \<and> response_json r = Inr body_id_42"
  then show "fst (keap_handler fetch ki) = Inr (success_envelope (Some pretty_id_42))"
    by (simp add: keap_handler_def fst_try_catch keap_try_def fetch_and_report_def ok_def
          stringify2_id_42)
next
  fix req r
  assume "hubspot_request hi = Inr req \<and> fetch req = Inr r \<and> status r = 200
        \<and> response_json r = Inr body_id_42"
  then show "fst (hubspot_handler fetch hi) = Inr (success_envelope (Some pretty_id_42))"
    by (simp add: hubspot_handler_def fst_try_catch hubspot_try_def fetch_and_report_def ok_def
          stringify2_id_42)
next
  fix r
  assume "fetch (ghl_request gi) = Inr r \<and> status r = 200 \<and> response_json r = Inr body_id_42"
  then show "fst (ghl_handler fetch gi) = Inr (success_envelope (Some pretty_id_42))"
    by (simp add: ghl_handler_def fst_try_catch ghl_try_fst ok_def stringify2_id_42)
next
  assume "axios (freshworks_request fi) = Inr body_id_42
        \<and> ax_method (freshworks_request fi) = lit ''get''"
  then show "fst (freshworks_handler axios fi) = Inr (success_envelope (Some pretty_id_42))"
    by (simp add: freshworks_handler_def fst_try_catch freshworks_try_def freshworks_prefix_get
          stringify2_id_42)
next
  assume a: "axios (freshworks_request fi) = Inr body_id_42"
  obtain p where p: "freshworks_prefix fi body_id_42 = Inr p"
    using freshworks_prefix_id_42 by blast
  with a have "fst (freshworks_handler axios fi) = Inr (success_envelope (Some (p @ pretty_id_42)))"
    by (simp add: freshworks_handler_def fst_try_catch freshworks_try_def stringify2_id_42)
  with p show "\<exists>p. freshworks_prefix fi body_id_42 = Inr p
         \<and> fst (freshworks_handler axios fi) = Inr (success_envelope (Some (p @ pretty_id_42)))"
    by blast
next
  assume "sdk (pipedrive_request pi) = Inr (Some (JObj [(lit ''data'', body_id_42)]))"
  then show "fst (pipedrive_handler sdk pi) = Inr (success_envelope (Some pretty_id_42))"
    by (simp add: pipedrive_handler_def fst_try_catch pipedrive_try_def get_prop_opt_def
          get_prop_def stringify2_id_42)
next
  assume "sdk (pipedrive_request pi) = Inr (Some body_id_42)"
  then show "fst (pipedrive_handler sdk pi) = Inr (success_envelope None)"
    by (simp add: pipedrive_handler_def fst_try_catch pipedrive_try_def get_prop_opt_def
          get_prop_def body_id_42_def lit_def)
next
  show "isError (success_envelope (Some pretty_id_42)) = None"
    by (simp add: success_envelope_def)
qed

theorem ok_id_42_envelopes_witness:
  "fst (keap_handler (fake_fetch (json_response 200 (lit ''OK'') body_id_42))
          (KeapListContacts (lit ''key'') None None))
     = Inr (success_envelope (Some pretty_id_42))
   \<and> fst (hubspot_handler (fake_fetch (json_response 200 (lit ''OK'') body_id_42))
          (HubspotUpdateContact (lit ''key'') (lit ''c1'') []))
     = Inr (success_envelope (Some pretty_id_42))
   \<and> fst (ghl_handler (fake_fetch (json_response 200 (lit ''OK'') body_id_42))
          (GetPipelines (lit ''key'')))
     = Inr (success_envelope (Some pretty_id_42))
   \<and> fst (freshworks_handler (resolving body_id_42)
          (FreshdeskGetTicket (lit ''key'') (lit ''acme'') 7))
     = Inr (success_envelope (Some pretty_id_42))
   \<and> (\<exists>p. freshworks_prefix (FreshdeskAddNote (lit ''key'') (lit ''acme'') 7 (lit ''seen'') None)
               body_id_42 = Inr p
         \<and> fst (freshworks_handler (resolving body_id_42)
                  (FreshdeskAddNote (lit ''key'') (lit ''acme'') 7 (lit ''seen'') None))
            = Inr (success_envelope (Some (p @ pretty_id_42))))
   \<and> fst (pipedrive_handler (resolving (Some (JObj [(lit ''data'', body_id_42)]))) GetAllPersons)
     = Inr (success_envelope (Some pretty_id_42))
   \<and> fst (pipedrive_handler (resolving (Some body_id_42)) GetAllPersons)
     = Inr (success_envelope None)"
proof -
  let ?r = "json_response 200 (lit ''OK'') body_id_42"
  let ?ki = "KeapListContacts (lit ''key'') None None"
  let ?hi = "HubspotUpdateContact (lit ''key'') (lit ''c1'') []"
  let ?gi = "GetPipelines (lit ''key'')"
  let ?f1 = "FreshdeskGetTicket (lit ''key'') (lit ''acme'') 7"
  let ?f2 = "FreshdeskAddNote (lit ''key'') (lit ''acme'') 7 (lit ''seen'') None"
  let ?s1 = "resolving (Some (JObj [(lit ''data'', body_id_42)])) :: pipedrive_sdk"
  let ?s2 = "resolving (Some body_id_42) :: pipedrive_sdk"
  let ?ax = "resolving body_id_42 :: axios"
  have k: "keap_request ?ki = Inr (projr (keap_request ?ki))
      \<and> fake_fetch ?r (projr (keap_request ?ki)) = Inr ?r \<and> status ?r = 200
      \<and> response_json ?r = Inr body_id_42"
    by (simp add: fake_fetch_def json_response_def)
  have h: "hubspot_request ?hi = Inr (projr (hubspot_request ?hi))
      \<and> fake_fetch ?r (projr (hubspot_request ?hi)) = Inr ?r \<and> status ?r = 200
      \<and> response_json ?r = Inr body_id_42"
    by (simp add: fake_fetch_def json_response_def)
  have g: "fake_fetch ?r (ghl_request ?gi) = Inr ?r \<and> status ?r = 200
      \<and> response_json ?r = Inr body_id_42"
    by (simp add: fake_fetch_def json_response_def)
  have f1: "?ax (freshworks_request ?f1) = Inr body_id_42
      \<and> ax_method (freshworks_request ?f1) = lit ''get''"
    by (simp add: resolving_def client_get_def)
  have f2: "?ax (freshworks_request ?f2) = Inr body_id_42"
    by (simp add: resolving_def)
  have s1: "?s1 (pipedrive_request GetAllPersons) = Inr (Some (JObj [(lit ''data'', body_id_42)]))"
    by (simp add: resolving_def)
  have s2: "?s2 (pipedrive_request GetAllPersons) = Inr (Some body_id_42)"
    by (simp add: resolving_def)
  note a = ok_id_42_envelopes [where ki = ?ki and fetch = "fake_fetch ?r" and hi = ?hi and gi = ?gi
             and axios = ?ax and fi = ?f1 and sdk = ?s1 and pi = GetAllPersons]
  note b = ok_id_42_envelopes [where axios = ?ax and fi = ?f2 and sdk = ?s2 and pi = GetAllPersons]
  show ?thesis
  proof (intro conjI)
    show "fst (keap_handler (fake_fetch ?r) ?ki) = Inr (success_envelope (Some pretty_id_42))"
      by (rule a [THEN conjunct1, rule_format, OF k])
    show "fst (hubspot_handler (fake_fetch ?r) ?hi) = Inr (success_envelope (Some pretty_id_42))"
      by (rule a [THEN conjunct2, THEN conjunct1, rule_format, OF h])
    show "fst (ghl_handler (fake_fetch ?r) ?gi) = Inr (success_envelope (Some pretty_id_42))"
      by (rule a [THEN conjunct2, THEN conjunct2, THEN conjunct1, rule_format, OF g])
    show "fst (freshworks_handler ?ax ?f1) = Inr (success_envelope (Some pretty_id_42))"
      by (rule a [THEN conjunct2, THEN conjunct2, THEN conjunct2, THEN conjunct1, rule_format, OF f1])
    show "\<exists>p. freshworks_prefix ?f2 body_id_42 = Inr p
         \<and> fst (freshworks_handler ?ax ?f2) = Inr (success_envelope (Some (p @ pretty_id_42)))"
      by (rule b [THEN conjunct2, THEN conjunct2, THEN conjunct2, THEN conjunct2, THEN conjunct1,
                  rule_format, OF f2])
    show "fst (pipedrive_handler ?s1 GetAllPersons) = Inr (success_envelope (Some pretty_id_42))"
      by (rule a [THEN conjunct2, THEN conjunct2, THEN conjunct2, THEN conjunct2, THEN conjunct2,
                  THEN conjunct1, rule_format, OF s1])
    show "fst (pipedrive_handler ?s2 GetAllPersons) = Inr (success_envelope None)"
      by (rule b [THEN conjunct2, THEN conjunct2, THEN conjunct2, THEN conjunct2, THEN conjunct2,
                  THEN conjunct2, THEN conjunct1, rule_format, OF s2])
  qed
qed

text \<open>
  The claim as first written gives the bare serialization to every tool.
  \<^verbatim>\<open>freshdesk-create-ticket\<close> puts a line in front of it.
\<close>

theorem create_ticket_prefix_counterexample:
  "fst (freshworks_handler (resolving body_id_42)
          (FreshdeskCreateTicket (lit ''key'') (lit ''acme'') (lit ''Printer'') (lit ''It is broken'')
             (lit ''a@b.com'') None None None))
     = Inr (success_envelope
             (Some (lit ''Ticket created successfully with ID: 42'' @ [0x0A, 0x0A] @ pretty_id_42)))
   \<and> lit ''Ticket created successfully with ID: 42'' @ [0x0A, 0x0A] @ pretty_id_42 \<noteq> pretty_id_42"
proof
  show "fst (freshworks_handler (resolving body_id_42)
          (FreshdeskCreateTicket (lit ''key'') (lit ''acme'') (lit ''Printer'') (lit ''It is broken'')
             (lit ''a@b.com'') None None None))
     = Inr (success_envelope
             (Some (lit ''Ticket created successfully with ID: 42'' @ [0x0A, 0x0A] @ pretty_id_42)))"
    by (simp add: freshworks_handler_def fst_try_catch freshworks_try_def resolving_def
          created_line_id_42 stringify2_id_42)
  show "lit ''Ticket created successfully with ID: 42'' @ [0x0A, 0x0A] @ pretty_id_42 \<noteq> pretty_id_42"
    using append_self_conv2 [of "lit ''Ticket created successfully with ID: 42'' @ [0x0A, 0x0A]" pretty_id_42]
    by (simp add: lit_def)
qed

section \<open>Calls of the HTTP client per invocation\<close>

text \<open>
  Claim C8, as amended. Every invocation returns exactly one envelope and calls the HTTP
  client at most once. A GoHighLevel, FreshWorks or Pipedrive tool calls it exactly once.
  A Keap or Hubspot tool calls it exactly once when its request could be built, and not
  at all when building the request threw; that happens only when encodeURIComponent
  meets a lone surrogate, in the query of \<^verbatim>\<open>keap-search-contacts\<close> or in a property name
  of \<^verbatim>\<open>hubspot-list-contacts\<close>, \<^verbatim>\<open>hubspot-get-contact\<close> or \<^verbatim>\<open>hubspot-list-deals\<close>.
\<close>

theorem at_most_one_call_one_envelope:
  "snd (ghl_handler fetch gi) = [ghl_request gi]
   \<and> snd (freshworks_handler axios fi) = [freshworks_request fi]
   \<and> snd (pipedrive_handler sdk pi) = [pipedrive_request pi]
   \<and> (\<forall>req. keap_request ki = Inr req \<longrightarrow> snd (keap_handler fetch ki) = [req])
   \<and> (\<forall>t. keap_request ki = Inl t \<longrightarrow>
         snd (keap_handler fetch ki) = []
         \<and> (\<exists>k q l f. ki = KeapSearchContacts k q l f \<and> encodeURIComponent q = Inl URIError))
   \<and> (\<forall>req. hubspot_request hi = Inr req \<longrightarrow> snd (hubspot_handler fetch hi) = [req])
   \<and> (\<forall>t. hubspot_request hi = Inl t \<longrightarrow>
         snd (hubspot_handler fetch hi) = []
         \<and> (\<exists>k c l ps. (hi = HubspotListContacts k l ps \<or> hi = HubspotGetContact k c ps)
               \<and> (\<exists>p \<in> set (z_default hubspot_contact_properties ps).
                      encodeURIComponent p = Inl URIError)
             \<or> hi = HubspotListDeals k l ps
               \<and> (\<exists>p \<in> set (z_default hubspot_deal_properties ps).
                      encodeURIComponent p = Inl URIError)))
   \<and> (\<exists>!e. fst (ghl_handler fetch gi) = Inr e)
   \<and> (\<exists>!e. fst (keap_handler fetch ki) = Inr e)
   \<and> (\<exists>!e. fst (hubspot_handler fetch hi) = Inr e)
   \<and> (\<exists>!e. fst (freshworks_handler axios fi) = Inr e)
   \<and> (\<exists>!e. fst (pipedrive_handler sdk pi) = Inr e)"
proof -
  have k: "\<forall>t. keap_request ki = Inl t \<longrightarrow>
         snd (keap_handler fetch ki) = []
         \<and> (\<exists>k q l f. ki = KeapSearchContacts k q l f \<and> encodeURIComponent q = Inl URIError)"
    using keap_request_Inl [of ki] by (auto simp: keap_handler_def snd_try_catch keap_try_snd)
  have h: "\<forall>t. hubspot_request hi = Inl t \<longrightarrow>
         snd (hubspot_handler fetch hi) = []
         \<and> (\<exists>k c l ps. (hi = HubspotListContacts k l ps \<or> hi = HubspotGetContact k c ps)
               \<and> (\<exists>p \<in> set (z_default hubspot_contact_properties ps).
                      encodeURIComponent p = Inl URIError)
             \<or> hi = HubspotListDeals k l ps
               \<and> (\<exists>p \<in> set (z_default hubspot_deal_properties ps).
                      encodeURIComponent p = Inl URIError))"
    using hubspot_request_Inl [of hi]
    by (auto simp add: hubspot_handler_def snd_try_catch hubspot_try_snd)
  show ?thesis
    using k h
    by (simp add: ghl_handler_def keap_handler_def hubspot_handler_def freshworks_handler_def
        pipedrive_handler_def fst_try_catch snd_try_catch ghl_try_snd keap_try_snd hubspot_try_snd
        freshworks_try_snd pipedrive_try_snd)
qed

theorem at_most_one_call_one_envelope_witness:
  "keap_request (KeapListContacts (lit ''key'') None None)
     = Inr (get_request (lit ''key'')
              (lit ''https://api.infusionsoft.com/crm/rest/v1/contacts?limit=10&fields=email,given_name,family_name''))
   \<and> snd (keap_handler (rejecting (JsError (lit ''socket hang up'') None))
            (KeapListContacts (lit ''key'') None None))
     = [get_request (lit ''key'')
              (lit ''https://api.infusionsoft.com/crm/rest/v1/contacts?limit=10&fields=email,given_name,family_name'')]
   \<and> keap_request (KeapSearchContacts (lit ''key'') [0xD800] None None) = Inl URIError
   \<and> snd (keap_handler (rejecting (JsError (lit ''socket hang up'') None))
            (KeapSearchContacts (lit ''key'') [0xD800] None None)) = []
   \<and> hubspot_request (HubspotUpdateContact (lit ''key'') (lit ''c1'') [])
     = Inr (body_request (lit ''key'') (lit ''https://api.hubapi.com/crm/v3/objects/contacts/c1'')
              (lit ''PATCH'') (properties_object []))
   \<and> snd (hubspot_handler (rejecting (JsError (lit ''socket hang up'') None))
            (HubspotUpdateContact (lit ''key'') (lit ''c1'') []))
     = [body_request (lit ''key'') (lit ''https://api.hubapi.com/crm/v3/objects/contacts/c1'')
              (lit ''PATCH'') (properties_object [])]
   \<and> hubspot_request (HubspotListDeals (lit ''key'') None (Some [[0xDC00]])) = Inl URIError
   \<and> snd (hubspot_handler (rejecting (JsError (lit ''socket hang up'') None))
            (HubspotListDeals (lit ''key'') None (Some [[0xDC00]]))) = []"
proof -
  let ?f = "rejecting (JsError (lit ''socket hang up'') None) :: fetch"
  let ?k1 = "KeapListContacts (lit ''key'') None None"
  let ?k2 = "KeapSearchContacts (lit ''key'') [0xD800] None None"
  let ?h1 = "HubspotUpdateContact (lit ''key'') (lit ''c1'') []"
  let ?h2 = "HubspotListDeals (lit ''key'') None (Some [[0xDC00]])"
  have k1: "keap_request ?k1
     = Inr (get_request (lit ''key'')
              (lit ''https://api.infusionsoft.com/crm/rest/v1/contacts?limit=10&fields=email,given_name,family_name''))"
    by (simp add: z_default_def keap_contact_fields_def number_toString_def digits.simps lit_def)
  have k2: "keap_request ?k2 = Inl URIError"
    by (simp add: keap_search_query_def keap_searchParam_def uri_unescaped_def is_alnum_def
          is_high_surrogate_def)
  have h1: "hubspot_request ?h1
     = Inr (body_request (lit ''key'') (lit ''https://api.hubapi.com/crm/v3/objects/contacts/c1'')
              (lit ''PATCH'') (properties_object []))"
    by (simp add: lit_def)
  have h2: "hubspot_request ?h2 = Inl URIError"
    by (simp add: propertiesQuery_def z_default_def uri_unescaped_def is_alnum_def
          is_high_surrogate_def is_low_surrogate_def)
  note a = at_most_one_call_one_envelope [where fetch = ?f and ki = ?k1 and hi = ?h1]
  note b = at_most_one_call_one_envelope [where fetch = ?f and ki = ?k2 and hi = ?h2]
  note a1 = a [THEN conjunct2, THEN conjunct2, THEN conjunct2, THEN conjunct1, rule_format, OF k1]
  note a2 = a [THEN conjunct2, THEN conjunct2, THEN conjunct2, THEN conjunct2, THEN conjunct2,
               THEN conjunct1, rule_format, OF h1]
  note b1 = b [THEN conjunct2, THEN conjunct2, THEN conjunct2, THEN conjunct2, THEN conjunct1,
               rule_format, OF k2, THEN conjunct1]
  note b2 = b [THEN conjunct2, THEN conjunct2, THEN conjunct2, THEN conjunct2, THEN conjunct2,
               THEN conjunct2, THEN conjunct1, rule_format, OF h2, THEN conjunct1]
  from k1 a1 k2 b1 h1 a2 h2 b2 show ?thesis
    by (intro conjI)
qed

text \<open>
  The claim as first written says exactly one call for every input. A search whose query
  is a lone surrogate is answered without any call.
\<close>

theorem keap_search_no_call_counterexample:
  "snd (keap_handler (fake_fetch (json_response 200 (lit ''OK'') (JObj [])))
          (KeapSearchContacts (lit ''key'') [0xD800] None None)) = []
   \<and> fst (keap_handler (fake_fetch (json_response 200 (lit ''OK'') (JObj [])))
          (KeapSearchContacts (lit ''key'') [0xD800] None None))
      = Inr (error_envelope (lit ''Error searching Keap contacts: URI malformed''))"
  by (simp add: keap_handler_def fst_try_catch snd_try_catch keap_try_def keap_search_query_def
        keap_searchParam_def uri_unescaped_def is_alnum_def is_high_surrogate_def
        report_catch_def message_or_String_def URIError_def)
     (simp add: lit_def)

section \<open>Query parameters of the list tools\<close>




section \<open>Path parameters\<close>

text \<open>
  Claim C6, as amended. Every tool whose endpoint URL embeds a path parameter puts the
  validated value into the URL as it is, without percent-encoding it. The URL therefore
  carries the percent-encoded segment exactly when encodeURIComponent leaves the value
  unchanged, which is the case exactly when every code unit of the value is an unescaped
  one (letters, digits and \<^verbatim>\<open>-_.!~*'()\<close>); this holds for every numeric id of the
  Freshdesk tools that is a safe integer, which is printed in decimal. The theorem says
  nothing of a numeric id that is not a safe integer: the schema admits 1e21, which
  JavaScript prints as \<^verbatim>\<open>1e+21\<close>, a text that encodeURIComponent changes to
  \<^verbatim>\<open>1e%2B21\<close>.
\<close>

theorem path_parameters_verbatim:
  "req_url (ghl_request (GetContact k c)) = GHL_API_BASE @ lit ''/contacts/'' @ c
   \<and> req_url (ghl_request (UpdateContact k c d)) = GHL_API_BASE @ lit ''/contacts/'' @ c
   \<and> req_url (ghl_request (AddContactTags k c ts))
       = GHL_API_BASE @ lit ''/contacts/'' @ c @ lit ''/tags''
   \<and> req_url (ghl_request (RemoveContactTags k c ts))
       = GHL_API_BASE @ lit ''/contacts/'' @ c @ lit ''/tags''
   \<and> req_url (ghl_request (UpdateTask k c d)) = GHL_API_BASE @ lit ''/tasks/'' @ c
   \<and> req_url (ghl_request (DeleteTask k c)) = GHL_API_BASE @ lit ''/tasks/'' @ c
   \<and> map_sum id req_url (keap_request (KeapGetContact k c fs))
       = Inr (lit ''https://api.infusionsoft.com/crm/rest/v1/contacts/'' @ c @ lit ''?fields=''
               @ array_join [0x2C] (z_default keap_contact_fields fs))
   \<and> map_sum id req_url (keap_request (KeapUpdateContact k c d))
       = Inr (lit ''https://api.infusionsoft.com/crm/rest/v1/contacts/'' @ c)
   \<and> map_sum id req_url (hubspot_request (HubspotGetContact k c ps))
       = map_sum id (\<lambda>q. lit ''https://api.hubapi.com/crm/v3/objects/contacts/'' @ c @ lit ''?'' @ q)
           (propertiesQuery (z_default hubspot_contact_properties ps))
   \<and> map_sum id req_url (hubspot_request (HubspotUpdateContact k c props))
       = Inr (lit ''https://api.hubapi.com/crm/v3/objects/contacts/'' @ c)
   \<and> ax_url (freshworks_request (FreshchatGetConversation k dm c)) = lit ''/conversations/'' @ c
   \<and> ax_url (freshworks_request (FreshchatSendMessage k dm c at ai msg mt))
       = lit ''/conversations/'' @ c @ lit ''/messages''
   \<and> (encodeURIComponent c = Inr c \<longleftrightarrow> (\<forall>u \<in> set c. uri_unescaped (unat u)))
   \<and> (safe_integer n \<longrightarrow>
       ax_url (freshworks_request (FreshdeskGetTicket k s n)) = lit ''/tickets/'' @ number_toString n
       \<and> ax_url (freshworks_request (FreshdeskUpdateTicket k s n sj ds pr st tg))
           = lit ''/tickets/'' @ number_toString n
       \<and> ax_url (freshworks_request (FreshdeskAddNote k s n b pv))
           = lit ''/tickets/'' @ number_toString n @ lit ''/notes''
       \<and> ax_url (freshworks_request (FreshdeskGetContact k s n))
           = lit ''/contacts/'' @ number_toString n
       \<and> ax_url (freshworks_request (FreshdeskUpdateContact k s n nm em ph mb tw ds))
           = lit ''/contacts/'' @ number_toString n
       \<and> encodeURIComponent (number_toString n) = Inr (number_toString n))
   \<and> encodeURIComponent (lit ''1e+21'') = Inr (lit ''1e%2B21'')"
proof -
  have num: "encodeURIComponent (number_toString n) = Inr (number_toString n)"
    by (rule encodeURIComponent_unescaped) (simp add: number_toString_unescaped)
  have hub: "map_sum id req_url (hubspot_request (HubspotGetContact k c ps))
       = map_sum id (\<lambda>q. lit ''https://api.hubapi.com/crm/v3/objects/contacts/'' @ c @ lit ''?'' @ q)
           (propertiesQuery (z_default hubspot_contact_properties ps))"
    by (cases "propertiesQuery (z_default hubspot_contact_properties ps)")
       (simp_all add: get_request_def)
  show ?thesis
    using num hub encodeURIComponent_fixed_iff [of c]
    by (simp add: ghl_request_def ghl_fetch_request_def get_request_def body_request_def
          client_get_def client_put_def client_post_def encode_exponent)
qed

theorem path_parameters_verbatim_witness:
  "encodeURIComponent (lit ''c1'') = Inr (lit ''c1'')
   \<and> req_url (ghl_request (GetContact (lit ''key'') (lit ''c1'')))
       = GHL_API_BASE @ lit ''/contacts/'' @ lit ''c1''
   \<and> encodeURIComponent (lit ''a/b'') \<noteq> Inr (lit ''a/b'')
   \<and> ax_url (freshworks_request (FreshdeskGetTicket (lit ''key'') (lit ''acme'') 7))
       = lit ''/tickets/'' @ number_toString 7
   \<and> encodeURIComponent (number_toString 7) = Inr (number_toString 7)"
proof -
  have a: "\<forall>u \<in> set (lit ''c1''). uri_unescaped (unat u)"
    by (simp add: lit_def uri_unescaped_def is_alnum_def)
  have b: "\<not> (\<forall>u \<in> set (lit ''a/b''). uri_unescaped (unat u))"
    by (simp add: lit_def uri_unescaped_def is_alnum_def)
  note w1 = path_parameters_verbatim [where k = "lit ''key''" and c = "lit ''c1''"
              and s = "lit ''acme''" and n = 7]
  note w2 = path_parameters_verbatim [where c = "lit ''a/b''"]
  note i1 = w1 [THEN conjunct2, THEN conjunct2, THEN conjunct2, THEN conjunct2, THEN conjunct2, THEN conjunct2, THEN conjunct2, THEN conjunct2, THEN conjunct2, THEN conjunct2, THEN conjunct2, THEN conjunct2, THEN conjunct1]
  note i2 = w2 [THEN conjunct2, THEN conjunct2, THEN conjunct2, THEN conjunct2, THEN conjunct2, THEN conjunct2, THEN conjunct2, THEN conjunct2, THEN conjunct2, THEN conjunct2, THEN conjunct2, THEN conjunct2, THEN conjunct1]
  from i1 a have c1: "encodeURIComponent (lit ''c1'') = Inr (lit ''c1'')" by (rule iffD2)
  from i2 b have c2: "encodeURIComponent (lit ''a/b'') \<noteq> Inr (lit ''a/b'')" by blast
  note c3 = w1 [THEN conjunct1]
  have sf: "safe_integer 7" by (simp add: safe_integer_def)
  note nb = w1 [THEN conjunct2, THEN conjunct2, THEN conjunct2, THEN conjunct2, THEN conjunct2, THEN conjunct2, THEN conjunct2, THEN conjunct2, THEN conjunct2, THEN conjunct2, THEN conjunct2, THEN conjunct2, THEN conjunct2, THEN conjunct1, THEN mp, OF sf]
  note c4 = nb [THEN conjunct1]
  note c5 = nb [THEN conjunct2, THEN conjunct2, THEN conjunct2, THEN conjunct2, THEN conjunct2]
  from c1 c2 c3 c4 c5 show ?thesis by (intro conjI)
qed

text \<open>
  The claim as first written says the segment is percent-encoded for every value. The
  contact id \<^verbatim>\<open>a/b\<close> goes into the URL with its slash.
\<close>

theorem raw_path_parameter_counterexample:
  "req_url (ghl_request (GetContact (lit ''key'') (lit ''a/b'')))
     = lit ''https://rest.gohighlevel.com/v1/contacts/a/b''
   \<and> encodeURIComponent (lit ''a/b'') = Inr (lit ''a%2Fb'')
   \<and> \<not> String_includes (lit ''https://rest.gohighlevel.com/v1/contacts/a/b'') (lit ''a%2Fb'')"
  by (simp add: ghl_request_def ghl_fetch_request_def GHL_API_BASE_def encode_slash)
     (simp add: lit_def)

section \<open>Reading the text of a success envelope back\<close>




section \<open>Creating a contact against the echoing vendor\<close>

text \<open>
  Claim C5, as amended. Against a vendor that echoes the posted body with \<^verbatim>\<open>id\<close> set to
  \<^verbatim>\<open>"c1"\<close>, the GoHighLevel tool \<^verbatim>\<open>createContact\<close> returns a success envelope whose text is
  exactly the serialization of the echo with an indent of two spaces: its first line
  is the opening brace, and \<^verbatim>\<open>c1\<close> stands further down, in the line of the property
  \<^verbatim>\<open>id\<close>. The FreshWorks tool \<^verbatim>\<open>freshdesk-create-contact\<close>, whose input also needs a name,
  returns a success envelope whose text starts with the line
  \<^verbatim>\<open>Contact created successfully with ID: c1\<close>, followed by a blank line and the
  serialization of the echo.
\<close>

theorem create_contact_echo:
  "(wf_json (JObj kvs) \<longrightarrow>
      fst (ghl_handler echo_backend (CreateContact apiKey (JObj kvs)))
        = Inr (success_envelope (Some (JSON_stringify2 (with_id_c1 (JObj kvs)))))
      \<and> first_line (JSON_stringify2 (with_id_c1 (JObj kvs))) = lit ''{'')
   \<and> (fi = FreshdeskCreateContact key subdomain name email phone mobilePhone twitterId
             companyName description \<longrightarrow>
      (\<exists>posted. ax_data (freshworks_request fi) = Some (present posted)
         \<and> fst (freshworks_handler echo_axios fi)
             = Inr (success_envelope
                     (Some (lit ''Contact created successfully with ID: c1'' @ [0x0A, 0x0A]
                        @ JSON_stringify2 (with_id_c1 (JObj posted)))))
         \<and> first_line (lit ''Contact created successfully with ID: c1'' @ [0x0A, 0x0A]
                        @ JSON_stringify2 (with_id_c1 (JObj posted)))
             = lit ''Contact created successfully with ID: c1''))"
proof (intro conjI impI)
  assume "wf_json (JObj kvs)"
  then show "fst (ghl_handler echo_backend (CreateContact apiKey (JObj kvs)))
        = Inr (success_envelope (Some (JSON_stringify2 (with_id_c1 (JObj kvs)))))"
    by (rule ghl_create_contact_echo)
next
  show "first_line (JSON_stringify2 (with_id_c1 (JObj kvs))) = lit ''{''"
    by (rule first_line_with_id)
next
  assume "fi = FreshdeskCreateContact key subdomain name email phone mobilePhone twitterId
             companyName description"
  then show "\<exists>posted. ax_data (freshworks_request fi) = Some (present posted)
         \<and> fst (freshworks_handler echo_axios fi)
             = Inr (success_envelope
                     (Some (lit ''Contact created successfully with ID: c1'' @ [0x0A, 0x0A]
                        @ JSON_stringify2 (with_id_c1 (JObj posted)))))
         \<and> first_line (lit ''Contact created successfully with ID: c1'' @ [0x0A, 0x0A]
                        @ JSON_stringify2 (with_id_c1 (JObj posted)))
             = lit ''Contact created successfully with ID: c1''"
    using freshdesk_create_contact_echo first_line_contact by blast
qed

theorem create_contact_echo_witness:
  "fst (ghl_handler echo_backend (CreateContact (lit ''key'') contact_a_b))
     = Inr (success_envelope (Some pretty_echo_c1))
   \<and> first_line pretty_echo_c1 = lit ''{''
   \<and> (\<exists>posted.
        ax_data (freshworks_request
          (FreshdeskCreateContact (lit ''key'') (lit ''acme'') (lit ''Ann'') (lit ''a@b.com'')
             None None None None None)) = Some (present posted)
        \<and> fst (freshworks_handler echo_axios
            (FreshdeskCreateContact (lit ''key'') (lit ''acme'') (lit ''Ann'') (lit ''a@b.com'')
               None None None None None))
           = Inr (success_envelope
                   (Some (lit ''Contact created successfully with ID: c1'' @ [0x0A, 0x0A]
                      @ JSON_stringify2 (with_id_c1 (JObj posted)))))
        \<and> first_line (lit ''Contact created successfully with ID: c1'' @ [0x0A, 0x0A]
                      @ JSON_stringify2 (with_id_c1 (JObj posted)))
           = lit ''Contact created successfully with ID: c1'')"
proof -
  let ?fi = "FreshdeskCreateContact (lit ''key'') (lit ''acme'') (lit ''Ann'') (lit ''a@b.com'')
             None None None None None"
  have wf: "wf_json (JObj [(lit ''email'', JStr (lit ''a@b.com''))])" by simp
  note a = create_contact_echo [where kvs = "[(lit ''email'', JStr (lit ''a@b.com''))]"
      and apiKey = "lit ''key''" and fi = ?fi and key = "lit ''key''" and subdomain = "lit ''acme''"
      and name = "lit ''Ann''" and email = "lit ''a@b.com''" and phone = None
      and mobilePhone = None and twitterId = None and companyName = None and description = None]
  note g = a [THEN conjunct1, rule_format, OF wf]
  note f = a [THEN conjunct2, rule_format, OF refl]
  from g f show ?thesis
    by (simp only: contact_a_b_def [symmetric] stringify2_echo_c1)
qed

text \<open>
  The claim as first written puts a line with \<^verbatim>\<open>c1\<close> first in the text of
  \<^verbatim>\<open>createContact\<close>. Called with \<^verbatim>\<open>{email: "a@b.com"}\<close>, the tool returns the bare
  serialization, whose first line is the opening brace.
\<close>

theorem create_contact_first_line_counterexample:
  "fst (ghl_handler echo_backend (CreateContact (lit ''key'') contact_a_b))
     = Inr (success_envelope (Some pretty_echo_c1))
   \<and> first_line pretty_echo_c1 = lit ''{''
   \<and> \<not> String_includes (first_line pretty_echo_c1) (lit ''c1'')"
proof -
  have wf: "wf_json (JObj [(lit ''email'', JStr (lit ''a@b.com''))])" by simp
  have 1: "fst (ghl_handler echo_backend (CreateContact (lit ''key'') contact_a_b))
     = Inr (success_envelope (Some pretty_echo_c1))"
    using ghl_create_contact_echo [OF wf, of "lit ''key''"]
    by (simp only: contact_a_b_def [symmetric] stringify2_echo_c1)
  have 2: "first_line pretty_echo_c1 = lit ''{''"
    using first_line_with_id [of "[(lit ''email'', JStr (lit ''a@b.com''))]"]
    by (simp only: contact_a_b_def [symmetric] stringify2_echo_c1)
  have 3: "\<not> String_includes (lit ''{'') (lit ''c1'')" by (simp add: lit_def)
  from 1 2 3 show ?thesis by simp
qed

section \<open>GoHighLevel: what a response outside 2xx turns into\<close>




section \<open>The search key of \<^verbatim>\<open>keap-search-contacts\<close>\<close>

text \<open>
  Claim C10, as amended. For every input whose query can be percent-encoded and whose
  field names hold no \<^verbatim>\<open>&\<close>, the query string of the request has exactly three
  parameters: the percent-encoded query under the key \<^verbatim>\<open>email\<close> if the query contains
  \<^verbatim>\<open>@\<close> and under the key \<^verbatim>\<open>given_name\<close> otherwise, then \<^verbatim>\<open>limit\<close>, then \<^verbatim>\<open>fields\<close>;
  so exactly one of the two search keys is sent.
\<close>

theorem keap_search_key:
  assumes "encodeURIComponent query = Inr e"
    and "\<forall>f \<in> set (z_default keap_contact_fields fs). 0x26 \<notin> set f"
  shows "\<exists>qs. keap_request (KeapSearchContacts k query limit fs)
            = Inr (get_request k (lit ''https://api.infusionsoft.com/crm/rest/v1/contacts?'' @ qs))
        \<and> query_pairs qs
            = [(if 0x40 \<in> set query then lit ''email'' else lit ''given_name'', e),
               (lit ''limit'', number_toString (z_default 10 limit)),
               (lit ''fields'', array_join [0x2C] (z_default keap_contact_fields fs))]"
proof -
  let ?key = "if 0x40 \<in> set query then lit ''email'' else lit ''given_name''"
  let ?v2 = "number_toString (z_default 10 limit)"
  let ?v3 = "array_join [0x2C] (z_default keap_contact_fields fs)"
  let ?qs = "?key @ [0x3D] @ e @ lit ''&limit='' @ ?v2 @ lit ''&fields='' @ ?v3"
  have at: "String_includes query (lit ''@'') \<longleftrightarrow> 0x40 \<in> set query"
    using includes_at [of query "0x40"] by (simp add: lit_def)
  have eq: "lit ''email='' = lit ''email'' @ [0x3D]" "lit ''given_name='' = lit ''given_name'' @ [0x3D]"
    by (simp_all add: lit_def)
  have r: "keap_request (KeapSearchContacts k query limit fs)
      = Inr (get_request k (lit ''https://api.infusionsoft.com/crm/rest/v1/contacts?'' @ ?qs))"
    using assms(1) by (simp add: keap_search_query_def keap_searchParam_def at eq)
  have k1: "0x26 \<notin> set ?key" "0x3D \<notin> set ?key" using lit_no_sep by auto
  have v1: "0x26 \<notin> set e"
    using encodeURIComponent_units [OF assms(1)] encoded_unit_not_sep by blast
  have v2: "0x26 \<notin> set ?v2" using number_toString_no_sep by blast
  have v3: "0x26 \<notin> set ?v3"
    using set_array_join [of "[0x2C]" "z_default keap_contact_fields fs"] assms(2) by auto
  from query_pairs_three [OF k1 v1 v2 v3] r show ?thesis by blast
qed

theorem keap_search_key_witness:
  "encodeURIComponent (lit ''a@b.c'') = Inr (lit ''a%40b.c'')
   \<and> (\<exists>qs. keap_request (KeapSearchContacts (lit ''key'') (lit ''a@b.c'') None None)
            = Inr (get_request (lit ''key'')
                    (lit ''https://api.infusionsoft.com/crm/rest/v1/contacts?'' @ qs))
        \<and> query_pairs qs
            = [(lit ''email'', lit ''a%40b.c''), (lit ''limit'', lit ''10''),
               (lit ''fields'', lit ''email,given_name,family_name'')])
   \<and> encodeURIComponent (lit ''bob'') = Inr (lit ''bob'')
   \<and> (\<exists>qs. keap_request (KeapSearchContacts (lit ''key'') (lit ''bob'') (Some 5) None)
            = Inr (get_request (lit ''key'')
                    (lit ''https://api.infusionsoft.com/crm/rest/v1/contacts?'' @ qs))
        \<and> query_pairs qs
            = [(lit ''given_name'', lit ''bob''), (lit ''limit'', lit ''5''),
               (lit ''fields'', lit ''email,given_name,family_name'')])"
proof -
  have f: "\<forall>f \<in> set (z_default keap_contact_fields None). 0x26 \<notin> set f"
    by (simp add: z_default_def keap_contact_fields_def lit_def)
  have v: "(if 0x40 \<in> set (lit ''a@b.c'') then lit ''email'' else lit ''given_name'') = lit ''email''"
    "(if 0x40 \<in> set (lit ''bob'') then lit ''email'' else lit ''given_name'') = lit ''given_name''"
    "number_toString (z_default 10 None) = lit ''10''"
    "number_toString (z_default 10 (Some 5)) = lit ''5''"
    "array_join [0x2C] (z_default keap_contact_fields None) = lit ''email,given_name,family_name''"
    by (simp_all add: z_default_def keap_contact_fields_def number_toString_def digits.simps lit_def)
  note a = keap_search_key [OF encode_at f, of "lit ''key''" None, unfolded v]
  note b = keap_search_key [OF encode_bob f, of "lit ''key''" "Some 5", unfolded v]
  from encode_at a encode_bob b show ?thesis by (intro conjI)
qed

text \<open>
  The claim as first written speaks of every input. The field names are joined into the
  URL without encoding, so a field name that holds \<^verbatim>\<open>&given_name=y\<close> adds the second
  search key to a query that was sent under \<^verbatim>\<open>email\<close>.
\<close>

theorem keap_fields_injection_counterexample:
  "keap_request (KeapSearchContacts (lit ''key'') (lit ''a@b.c'') None (Some [lit ''x&given_name=y'']))
     = Inr (get_request (lit ''key'')
             (lit ''https://api.infusionsoft.com/crm/rest/v1/contacts?email=a%40b.c&limit=10&fields=x&given_name=y''))
   \<and> query_pairs (lit ''email=a%40b.c&limit=10&fields=x&given_name=y'')
     = [(lit ''email'', lit ''a%40b.c''), (lit ''limit'', lit ''10''), (lit ''fields'', lit ''x''),
        (lit ''given_name'', lit ''y'')]"
proof
  have at: "String_includes (lit ''a@b.c'') (lit ''@'')" by (simp add: lit_def)
  show "keap_request (KeapSearchContacts (lit ''key'') (lit ''a@b.c'') None (Some [lit ''x&given_name=y'']))
     = Inr (get_request (lit ''key'')
             (lit ''https://api.infusionsoft.com/crm/rest/v1/contacts?email=a%40b.c&limit=10&fields=x&given_name=y''))"
    by (simp add: keap_search_query_def keap_searchParam_def at encode_at z_default_def number_lits)
       (simp add: lit_def)
  have e: "lit ''email=a%40b.c&limit=10&fields=x&given_name=y''
      = lit ''email'' @ 0x3D # lit ''a%40b.c'' @ 0x26 # lit ''limit'' @ 0x3D # lit ''10'' @ 0x26
          # lit ''fields'' @ 0x3D # lit ''x'' @ 0x26 # lit ''given_name'' @ 0x3D # lit ''y''"
    by (simp add: lit_def)
  have n: "0x26 \<notin> set (lit ''email'')" "0x3D \<notin> set (lit ''email'')"
    "0x26 \<notin> set (lit ''a%40b.c'')"
    "0x26 \<notin> set (lit ''limit'')" "0x3D \<notin> set (lit ''limit'')" "0x26 \<notin> set (lit ''10'')"
    "0x26 \<notin> set (lit ''fields'')" "0x3D \<notin> set (lit ''fields'')" "0x26 \<notin> set (lit ''x'')"
    "0x26 \<notin> set (lit ''given_name'')" "0x3D \<notin> set (lit ''given_name'')"
    "0x26 \<notin> set (lit ''y'')"
    by (simp_all add: lit_def)
  show "query_pairs (lit ''email=a%40b.c&limit=10&fields=x&given_name=y'')
     = [(lit ''email'', lit ''a%40b.c''), (lit ''limit'', lit ''10''), (lit ''fields'', lit ''x''),
        (lit ''given_name'', lit ''y'')]"
    by (simp only: e query_pairs_cons [OF n(1) n(2) n(3)] query_pairs_cons [OF n(4) n(5) n(6)]
          query_pairs_cons [OF n(7) n(8) n(9)] query_pairs_last [OF n(10) n(11) n(12)])
qed

end
